theory Spec2Isabelle
  imports Complex_Main
begin

section \<open>Data model of lifegen.py\<close>

text \<open>
  The simulator keeps its animals as Python objects whose attributes are mutated in
  place. Each class becomes a record and each method a function that returns the
  updated record. Python's unbounded integers are \<open>int\<close>, its floats are idealised as
  \<open>real\<close>.
\<close>

datatype species = Herbivore | Predator

datatype sex = Male | Female

datatype terrain_kind = Water | Land | Vegetation | Sand

text \<open>
  Attributes that are drawn at construction and never read or written afterwards
  (strength, agility, wisdom, intelligence, immune system, sensory perception, social
  rank, territory size, migratory pattern, behavioural traits, nutrition, colour, the
  empty predator, prey and defence lists, offspring and reproduction counts) are left
  out of the record.
\<close>

record animal =
  animal_id :: nat
  row :: int
  col :: int
  speed :: real
  sex :: sex
  species :: species
  hunger :: int
  thirst :: int
  energy :: int
  age :: int
  is_adult :: bool
  is_dead :: bool
  cause_of_death :: "string option"
  decay :: int
  max_age :: int
  body_temperature :: real
  fertility :: real
  gestation_period :: int
  reproduction_cooldown :: int
  is_pregnant :: bool
  colon :: int
  bladder :: int
  born :: bool
  hunting_success_rate :: real
  hunger_decrease_on_feed :: int

subsection \<open>Animal: decay, feeding, drinking\<close>

definition undergo_decay :: "animal \<Rightarrow> animal" where
  "undergo_decay a = (if is_dead a then a\<lparr>decay := max (decay a - 5) 0\<rparr> else a)"

definition increase_colon_fill :: "animal \<Rightarrow> animal" where
  "increase_colon_fill a = a\<lparr>colon := min (colon a + 20) 100\<rparr>"

text \<open>
  \<open>Animal.feed\<close> reads only the nutrition of its food source; the pipeline always passes a
  freshly built \<open>Plant()\<close>, whose nutrition is the integer 30.
\<close>

definition plant_initial_nutrition :: int where
  "plant_initial_nutrition = 30"

definition feed :: "animal \<Rightarrow> int \<Rightarrow> animal" where
  "feed a nutrition =
     increase_colon_fill
       ((a\<lparr>hunger := max (hunger a - nutrition) 0\<rparr>)
          \<lparr>energy := max (energy a + nutrition) 0\<rparr>)"

definition increase_bladder_fill :: "animal \<Rightarrow> animal" where
  "increase_bladder_fill a = a\<lparr>bladder := min (bladder a + 30) 100\<rparr>"

definition drink :: "animal \<Rightarrow> animal" where
  "drink a = increase_bladder_fill (a\<lparr>thirst := max (thirst a - 50) 0\<rparr>)"

subsection \<open>Animal: vital statistics and death\<close>

definition die :: "animal \<Rightarrow> string \<Rightarrow> animal" where
  "die a c =
     (if \<not> is_dead a
      then a\<lparr>is_dead := True, cause_of_death := Some c, born := False\<rparr>
      else a)"

definition age_animal :: "animal \<Rightarrow> animal" where
  "age_animal a =
     (let a1 = a\<lparr>age := age a + 1\<rparr>
      in if 20 \<le> age a1 \<and> \<not> is_adult a1 then a1\<lparr>is_adult := True\<rparr> else a1)"

definition increase_hunger :: "animal \<Rightarrow> animal" where
  "increase_hunger a = a\<lparr>hunger := min (hunger a + 10) 100\<rparr>"

definition increase_thirst :: "animal \<Rightarrow> animal" where
  "increase_thirst a = a\<lparr>thirst := min (thirst a + 10) 100\<rparr>"

definition regenerate_energy :: "animal \<Rightarrow> animal" where
  "regenerate_energy a =
     (if hunger a < 100 then a\<lparr>energy := min (energy a + 5) 100\<rparr> else a)"

definition check_death_conditions :: "animal \<Rightarrow> animal" where
  "check_death_conditions a =
     (if max_age a \<le> age a then die a ''Old Age''
      else if 100 \<le> hunger a then die a ''Starvation''
      else if 100 \<le> thirst a then die a ''Dehydration''
      else if 42 \<le> body_temperature a then die a ''Hyperthermia''
      else if energy a \<le> 0 then die a ''Exhaustion''
      else a)"

definition handle_vital_stats :: "animal \<Rightarrow> animal" where
  "handle_vital_stats a =
     regenerate_energy
       (check_death_conditions (increase_thirst (increase_hunger (age_animal a))))"

subsection \<open>Animal: reproduction gate\<close>

definition can_reproduce :: "animal \<Rightarrow> bool" where
  "can_reproduce a \<longleftrightarrow>
     sex a = Female \<and> \<not> is_pregnant a \<and> reproduction_cooldown a \<le> 0 \<and>
     20 < age a \<and> age a < 50 \<and> hunger a < 20 \<and> thirst a < 20 \<and> 8 \<le> fertility a"

definition herbivore_can_reproduce :: "animal \<Rightarrow> bool" where
  "herbivore_can_reproduce a \<longleftrightarrow> can_reproduce a \<and> is_adult a"

text \<open>
  \<open>Herbivore.reproduce\<close> mutates the female and returns \<open>None\<close> on every path; the model
  returns the updated female.
\<close>

definition herbivore_reproduce :: "animal \<Rightarrow> animal \<Rightarrow> animal" where
  "herbivore_reproduce a other =
     (if herbivore_can_reproduce a \<and> is_adult other \<and> species a = species other
         \<and> sex a \<noteq> sex other
      then a\<lparr>is_pregnant := True, gestation_period := 20\<rparr>
      else a)"

subsection \<open>Predator: hunting success rate\<close>

definition calculate_hunting_success_rate :: "real \<Rightarrow> real" where
  "calculate_hunting_success_rate s =
     (let base_rate = 0.2; speed_factor = (s - 3.5) / 1.0
      in min (base_rate + speed_factor) 1.0)"

text \<open>The clamp of the specification, written from its words, for comparison.\<close>

definition spec_clamp :: "real \<Rightarrow> real \<Rightarrow> real \<Rightarrow> real" where
  "spec_clamp x lo hi = max lo (min x hi)"

section \<open>The random generator\<close>

text \<open>
  All random decisions come from the module-level generator of Python's \<open>random\<close>. Its
  state is modelled by the sequence of raw values it is going to return; every call
  takes the next raw value and reduces it to the range of the call (\<open>random()\<close> returns a
  multiple of \<open>2 ^ -53\<close> below 1). The functions below hold for every such sequence.
\<close>

type_synonym rng = "nat \<Rightarrow> nat"

definition rng_next :: "rng \<Rightarrow> nat \<times> rng" where
  "rng_next g = (g 0, \<lambda>i. g (Suc i))"

definition random_random :: "rng \<Rightarrow> real \<times> rng" where
  "random_random g = (real (fst (rng_next g) mod 2 ^ 53) / 2 ^ 53, snd (rng_next g))"

definition randbelow :: "nat \<Rightarrow> rng \<Rightarrow> nat \<times> rng" where
  "randbelow n g = (fst (rng_next g) mod n, snd (rng_next g))"

definition random_randint :: "int \<Rightarrow> int \<Rightarrow> rng \<Rightarrow> int \<times> rng" where
  "random_randint a b g = (a + int (fst (randbelow (nat (b - a + 1)) g)), snd (rng_next g))"

definition random_uniform :: "real \<Rightarrow> real \<Rightarrow> rng \<Rightarrow> real \<times> rng" where
  "random_uniform a b g = (a + (b - a) * fst (random_random g), snd (rng_next g))"

text \<open>\<open>random.choice\<close> raises on an empty list; every caller tests the list first.\<close>

definition random_choice :: "'a list \<Rightarrow> rng \<Rightarrow> 'a \<times> rng" where
  "random_choice xs g = (xs ! fst (randbelow (length xs) g), snd (rng_next g))"

text \<open>
  \<open>random.shuffle\<close>: for \<open>i\<close> from \<open>len - 1\<close> down to 1, swap \<open>x[i]\<close> with \<open>x[j]\<close> for a
  random \<open>j \<le> i\<close>.
\<close>

fun shuffle_from :: "nat \<Rightarrow> 'a list \<Rightarrow> rng \<Rightarrow> 'a list \<times> rng" where
  "shuffle_from 0 xs g = (xs, g)"
| "shuffle_from (Suc i) xs g =
     (let j = fst (randbelow (Suc (Suc i)) g)
      in shuffle_from i (xs[Suc i := xs ! j, j := xs ! Suc i]) (snd (rng_next g)))"

definition random_shuffle :: "'a list \<Rightarrow> rng \<Rightarrow> 'a list \<times> rng" where
  "random_shuffle xs g = shuffle_from (length xs - 1) xs g"

section \<open>Terrain, plants, seasons and the ecosystem\<close>

text \<open>The \<open>metadata\<close> dictionary of a cell only ever holds the two marks below.\<close>

record terrain =
  terrain_type :: terrain_kind
  elevation :: real
  water_volume :: real
  feces :: bool
  urine :: bool

text \<open>The constructor \<open>Terrain(terrain_type, elevation, water_volume=0)\<close>.\<close>

definition new_terrain :: "terrain_kind \<Rightarrow> real \<Rightarrow> real \<Rightarrow> terrain" where
  "new_terrain t e v =
     \<lparr>terrain_type = t, elevation = e, water_volume = v, feces = False, urine = False\<rparr>"

record plant =
  nutrition :: real
  plant_is_dead :: bool
  plant_ambient_temperature :: real

definition new_plant :: plant where
  "new_plant = \<lparr>nutrition = 30, plant_is_dead = False, plant_ambient_temperature = 20\<rparr>"

definition plant_handle_vital_stats :: "plant \<Rightarrow> plant" where
  "plant_handle_vital_stats p =
     (if 35 \<le> plant_ambient_temperature p then p\<lparr>plant_is_dead := True\<rparr> else p)"

record season =
  season_name :: string
  temperature_modifier :: real
  food_growth_rate :: real
  predator_efficiency :: real

definition seasons :: "season list" where
  "seasons =
     [\<lparr>season_name = ''Spring'', temperature_modifier = 5, food_growth_rate = 1.2,
        predator_efficiency = 1.0\<rparr>,
      \<lparr>season_name = ''Summer'', temperature_modifier = 10, food_growth_rate = 1.0,
        predator_efficiency = 1.2\<rparr>,
      \<lparr>season_name = ''Autumn'', temperature_modifier = 0, food_growth_rate = 0.8,
        predator_efficiency = 1.0\<rparr>,
      \<lparr>season_name = ''Winter'', temperature_modifier = - 5, food_growth_rate = 0.5,
        predator_efficiency = 1.1\<rparr>]"

text \<open>
  The grid is a \<open>rows \<times> cols\<close> array of cells that is indexed and overwritten but never
  resized, and every index the code uses is either tested against the bounds first or
  is the position of an animal; it is modelled as a function from coordinates to cells
  together with the two bounds. \<open>animals_on_tile\<close> is a \<open>defaultdict(list)\<close>: a missing
  key reads as the empty list. Its entries are references to animals, through which
  only the identity and the species are read, so an entry is that pair.
  \<open>current_season\<close> is the position of the current season in \<open>seasons\<close>.
  \<open>random_state\<close> is the state of the module-level generator.
\<close>

record ecosystem =
  rows :: int
  cols :: int
  grid :: "int \<times> int \<Rightarrow> terrain"
  herbivores :: "animal list"
  predators :: "animal list"
  plants :: "plant list"
  animals_on_tile :: "int \<times> int \<Rightarrow> (nat \<times> species) list"
  cycle :: int
  ambient_temperature :: real
  precipitation_level :: int
  manual_temperature_control :: bool
  current_season :: nat
  season_cycle :: int
  season_duration :: int
  herbivore_population_data :: "nat list"
  predator_population_data :: "nat list"
  plant_population_data :: "nat list"
  random_state :: rng

definition in_bounds :: "ecosystem \<Rightarrow> int \<Rightarrow> int \<Rightarrow> bool" where
  "in_bounds e r c \<longleftrightarrow> 0 \<le> r \<and> r < rows e \<and> 0 \<le> c \<and> c < cols e"

text \<open>The cells in the order of \<open>for row in range(rows): for col in range(cols)\<close>.\<close>

definition all_cells :: "ecosystem \<Rightarrow> (int \<times> int) list" where
  "all_cells e = concat (map (\<lambda>r. map (\<lambda>c. (r, c)) [0..cols e - 1]) [0..rows e - 1])"

definition set_cell :: "ecosystem \<Rightarrow> int \<times> int \<Rightarrow> terrain \<Rightarrow> ecosystem" where
  "set_cell e p t = e\<lparr>grid := (grid e)(p := t)\<rparr>"

definition offsets3 :: "(int \<times> int) list" where
  "offsets3 = concat (map (\<lambda>i. map (\<lambda>j. (i, j)) [- 1, 0, 1]) [- 1, 0, 1])"

definition get_neighbors :: "ecosystem \<Rightarrow> int \<Rightarrow> int \<Rightarrow> (int \<times> int) list" where
  "get_neighbors e r c =
     filter (\<lambda>(nr, nc). in_bounds e nr nc) (map (\<lambda>(i, j). (r + i, c + j)) offsets3)"

definition is_water :: "ecosystem \<Rightarrow> int \<times> int \<Rightarrow> bool" where
  "is_water e p \<longleftrightarrow> terrain_type (grid e p) = Water"

text \<open>\<open>_is_adjacent_to_water\<close>: the four orthogonal neighbours.\<close>

definition orthogonal_offsets :: "(int \<times> int) list" where
  "orthogonal_offsets = [(- 1, 0), (1, 0), (0, - 1), (0, 1)]"

definition private_is_adjacent_to_water :: "ecosystem \<Rightarrow> int \<Rightarrow> int \<Rightarrow> bool" where
  "private_is_adjacent_to_water e r c =
     list_ex (\<lambda>(dr, dc). in_bounds e (r + dr) (c + dc) \<and> is_water e (r + dr, c + dc))
       orthogonal_offsets"

text \<open>\<open>is_adjacent_to_water\<close>: the eight surrounding cells.\<close>

definition is_adjacent_to_water :: "ecosystem \<Rightarrow> int \<Rightarrow> int \<Rightarrow> bool" where
  "is_adjacent_to_water e r c =
     list_ex (\<lambda>(nr, nc). in_bounds e nr nc \<and> is_water e (nr, nc))
       (map (\<lambda>(i, j). (r + i, c + j)) (filter (\<lambda>p. p \<noteq> (0, 0)) offsets3))"

definition count_water_neighbors :: "ecosystem \<Rightarrow> int \<Rightarrow> int \<Rightarrow> nat" where
  "count_water_neighbors e r c =
     length (filter (\<lambda>(nr, nc). in_bounds e nr nc \<and> is_water e (nr, nc))
       (map (\<lambda>(i, j). (r + i, c + j)) (filter (\<lambda>p. p \<noteq> (0, 0)) offsets3)))"

definition is_land_and_surrounded_by_water :: "ecosystem \<Rightarrow> int \<Rightarrow> int \<Rightarrow> nat \<Rightarrow> bool" where
  "is_land_and_surrounded_by_water e r c threshold \<longleftrightarrow>
     \<not> is_water e (r, c) \<and> threshold \<le> length (filter (is_water e) (get_neighbors e r c))"

section \<open>Terrain generation and smoothing\<close>

definition choose_terrain_type :: "real \<Rightarrow> rng \<Rightarrow> terrain_kind \<times> rng" where
  "choose_terrain_type elev g =
     (if elev < 30
      then (if fst (random_random g) < 0.4 then Water else Land, snd (rng_next g))
      else random_choice [Vegetation, Land] g)"

definition generate_cell :: "int \<times> int \<Rightarrow> ecosystem \<Rightarrow> ecosystem" where
  "generate_cell p e =
     (let elev = fst (random_uniform 0 100 (random_state e));
          g1 = snd (random_uniform 0 100 (random_state e));
          tt = fst (choose_terrain_type elev g1);
          g2 = snd (choose_terrain_type elev g1);
          wv = (if tt = Water then 100 else 0)
      in (set_cell e p (new_terrain tt elev wv))\<lparr>random_state := g2\<rparr>)"

definition identify_new_water_tiles :: "ecosystem \<Rightarrow> (int \<times> int) list" where
  "identify_new_water_tiles e =
     filter (\<lambda>(r, c). \<not> is_water e (r, c) \<and> is_land_and_surrounded_by_water e r c 3)
       (all_cells e)"

definition convert_to_water :: "ecosystem \<Rightarrow> (int \<times> int) list \<Rightarrow> ecosystem" where
  "convert_to_water e tiles =
     fold (\<lambda>p e'. set_cell e' p (new_terrain Water (elevation (grid e' p)) 100)) tiles e"

definition expand_step :: "ecosystem \<Rightarrow> ecosystem" where
  "expand_step e = convert_to_water e (identify_new_water_tiles e)"

definition expand_water_bodies :: "ecosystem \<Rightarrow> nat \<Rightarrow> ecosystem" where
  "expand_water_bodies e expansion_cycles = (expand_step ^^ expansion_cycles) e"

definition generate_terrain :: "ecosystem \<Rightarrow> ecosystem" where
  "generate_terrain e = expand_water_bodies (fold generate_cell (all_cells e) e) 3"

text \<open>
  \<open>Counter(...)['water']\<close> is the number of water cells among the neighbours returned
  by \<open>_get_neighbors\<close>, the cell itself included.
\<close>

definition calculate_smoothed_terrain :: "ecosystem \<Rightarrow> int \<Rightarrow> int \<Rightarrow> terrain" where
  "calculate_smoothed_terrain e r c =
     (if 10 < length (filter (is_water e) (get_neighbors e r c))
      then new_terrain Water (elevation (grid e (r, c))) 0
      else grid e (r, c))"

definition smooth_step :: "ecosystem \<Rightarrow> ecosystem" where
  "smooth_step e =
     e\<lparr>grid := (\<lambda>(r, c). if in_bounds e r c then calculate_smoothed_terrain e r c
                         else grid e (r, c))\<rparr>"

definition refine_cell :: "int \<times> int \<Rightarrow> ecosystem \<Rightarrow> ecosystem" where
  "refine_cell p e =
     (if is_water e p \<and> count_water_neighbors e (fst p) (snd p) < 2
      then (let new_type = (if fst (random_random (random_state e)) < 0.5 then Land else Sand)
            in (set_cell e p (new_terrain new_type (elevation (grid e p)) 0))
                 \<lparr>random_state := snd (rng_next (random_state e))\<rparr>)
      else e)"

definition shoreline_cell :: "int \<times> int \<Rightarrow> ecosystem \<Rightarrow> ecosystem" where
  "shoreline_cell p e =
     (if (terrain_type (grid e p) = Land \<or> terrain_type (grid e p) = Vegetation)
         \<and> is_adjacent_to_water e (fst p) (snd p)
      then set_cell e p (new_terrain Sand (elevation (grid e p)) 0)
      else e)"

definition generate_shorelines :: "ecosystem \<Rightarrow> ecosystem" where
  "generate_shorelines e = fold shoreline_cell (all_cells e) e"

definition refine_water_bodies_and_create_shorelines :: "ecosystem \<Rightarrow> ecosystem" where
  "refine_water_bodies_and_create_shorelines e =
     generate_shorelines (fold refine_cell (all_cells e) e)"

definition smooth_terrain :: "ecosystem \<Rightarrow> ecosystem" where
  "smooth_terrain e = refine_water_bodies_and_create_shorelines ((smooth_step ^^ 3) e)"

definition initialize_environment_attributes :: "ecosystem \<Rightarrow> ecosystem" where
  "initialize_environment_attributes e =
     e\<lparr>herbivores := [], predators := [], plants := [], cycle := 0,
       ambient_temperature := 20, precipitation_level := 0, current_season := 0,
       season_cycle := 0, season_duration := 50\<rparr>"

text \<open>
  The part of \<open>Ecosystem.__init__\<close> that builds the world before any animal is placed.
  The grid starts as an array of \<open>None\<close>; every cell inside the bounds is overwritten by
  \<open>_generate_terrain\<close>, so the placeholder below is never read inside the bounds.
\<close>

definition blank_ecosystem :: "int \<Rightarrow> int \<Rightarrow> rng \<Rightarrow> ecosystem" where
  "blank_ecosystem rws cls g =
     \<lparr>rows = rws, cols = cls, grid = (\<lambda>p. new_terrain Land 0 0),
      herbivores = [], predators = [], plants = [], animals_on_tile = (\<lambda>p. []),
      cycle = 0, ambient_temperature = 20, precipitation_level = 0,
      manual_temperature_control = False, current_season = 0, season_cycle = 0,
      season_duration = 50, herbivore_population_data = [],
      predator_population_data = [], plant_population_data = [], random_state = g\<rparr>"

definition construct_terrain :: "int \<Rightarrow> int \<Rightarrow> rng \<Rightarrow> ecosystem" where
  "construct_terrain rws cls g =
     smooth_terrain (generate_terrain (initialize_environment_attributes
       (blank_ecosystem rws cls g)))"

section \<open>Hydrology\<close>

definition dry_count :: "ecosystem \<Rightarrow> nat" where
  "dry_count e = length (filter (\<lambda>p. \<not> is_water e p) (all_cells e))"

text \<open>
  \<open>_flood_fill\<close> keeps a stack of cells. The head of the list is the top of the stack: a
  push is a cons, \<open>stack.pop()\<close> takes the head.
\<close>

definition flood_visit ::
  "int \<times> int \<Rightarrow> int \<times> int \<Rightarrow> ecosystem \<times> (int \<times> int) list \<Rightarrow> ecosystem \<times> (int \<times> int) list" where
  "flood_visit p d s =
     (let e = fst s; stack = snd s; n = (fst p + fst d, snd p + snd d)
      in if in_bounds e (fst n) (snd n) \<and> terrain_type (grid e n) \<noteq> Water
            \<and> elevation (grid e n) < 0.2
         then (set_cell e n (new_terrain Water (elevation (grid e n)) 0), n # stack)
         else (e, stack))"

definition flood_pop ::
  "ecosystem \<Rightarrow> int \<times> int \<Rightarrow> real \<Rightarrow> (int \<times> int) list \<Rightarrow> ecosystem \<times> (int \<times> int) list" where
  "flood_pop e p water_amount stack =
     fold (flood_visit p) orthogonal_offsets
       (set_cell e p ((grid e p)\<lparr>water_volume := water_volume (grid e p) + water_amount / 4\<rparr>),
        stack)"

text \<open>Facts about the grid used to show that the flood fill terminates.\<close>

lemma set_cell_dims: "rows (set_cell e p t) = rows e" "cols (set_cell e p t) = cols e"
  "all_cells (set_cell e p t) = all_cells e" "grid (set_cell e p t) = (grid e)(p := t)"
  "in_bounds (set_cell e p t) r c = in_bounds e r c"
  by (simp_all add: set_cell_def all_cells_def in_bounds_def)

lemma in_all_cells: "(r, c) \<in> set (all_cells e) \<longleftrightarrow> in_bounds e r c"
  by (force simp add: all_cells_def in_bounds_def)

lemma length_filter_mono:
  "(\<And>x. x \<in> set xs \<Longrightarrow> Q x \<Longrightarrow> P x) \<Longrightarrow> length (filter Q xs) \<le> length (filter P xs)"
  by (induction xs) auto

lemma length_filter_strict:
  "(\<And>x. x \<in> set xs \<Longrightarrow> Q x \<Longrightarrow> P x) \<Longrightarrow> y \<in> set xs \<Longrightarrow> P y \<Longrightarrow> \<not> Q y
   \<Longrightarrow> length (filter Q xs) < length (filter P xs)"
proof (induction xs)
  case Nil
  then show ?case by simp
next
  case (Cons x xs)
  have mono: "length (filter Q xs) \<le> length (filter P xs)"
    using Cons.prems(1) by (intro length_filter_mono) auto
  show ?case
  proof (cases "y = x")
    case True
    then show ?thesis using Cons.prems mono by auto
  next
    case False
    then have "length (filter Q xs) < length (filter P xs)"
      using Cons by auto
    then show ?thesis using Cons.prems(1)[of x] by auto
  qed
qed

lemma flood_visit_measure:
  "2 * dry_count (fst (flood_visit p d s)) + length (snd (flood_visit p d s))
     \<le> 2 * dry_count (fst s) + length (snd s)"
proof -
  obtain e stack where s: "s = (e, stack)" by (cases s)
  define n where "n = (fst p + fst d, snd p + snd d)"
  show ?thesis
  proof (cases "in_bounds e (fst n) (snd n) \<and> terrain_type (grid e n) \<noteq> Water
            \<and> elevation (grid e n) < 0.2")
    case True
    let ?e' = "set_cell e n (new_terrain Water (elevation (grid e n)) 0)"
    have mem: "n \<in> set (all_cells e)"
      using True in_all_cells[of "fst n" "snd n" e] by simp
    have "dry_count ?e' < dry_count e"
      unfolding dry_count_def set_cell_dims
      by (rule length_filter_strict[where y = n])
         (use True mem in \<open>auto simp add: is_water_def set_cell_dims new_terrain_def split: if_splits\<close>)
    then show ?thesis using True by (simp add: s flood_visit_def n_def Let_def)
  next
    case False
    then show ?thesis by (auto simp add: s flood_visit_def n_def Let_def)
  qed
qed

lemma fold_flood_visit_measure:
  "2 * dry_count (fst (fold (flood_visit p) ds s)) + length (snd (fold (flood_visit p) ds s))
     \<le> 2 * dry_count (fst s) + length (snd s)"
proof (induction ds arbitrary: s)
  case Nil
  then show ?case by simp
next
  case (Cons d ds)
  have "2 * dry_count (fst (fold (flood_visit p) ds (flood_visit p d s)))
          + length (snd (fold (flood_visit p) ds (flood_visit p d s)))
        \<le> 2 * dry_count (fst (flood_visit p d s)) + length (snd (flood_visit p d s))"
    by (rule Cons.IH)
  also have "\<dots> \<le> 2 * dry_count (fst s) + length (snd s)"
    by (rule flood_visit_measure)
  finally show ?case by simp
qed

lemma flood_pop_measure:
  "2 * dry_count (fst (flood_pop e p amt stack)) + length (snd (flood_pop e p amt stack))
     \<le> 2 * dry_count e + length stack"
proof -
  let ?e1 = "set_cell e p ((grid e p)\<lparr>water_volume := water_volume (grid e p) + amt / 4\<rparr>)"
  have "(\<lambda>q. \<not> is_water ?e1 q) = (\<lambda>q. \<not> is_water e q)"
    by (auto simp add: fun_eq_iff is_water_def set_cell_dims)
  then have "dry_count ?e1 = dry_count e"
    by (simp add: dry_count_def set_cell_dims)
  then show ?thesis
    unfolding flood_pop_def
    using fold_flood_visit_measure[of p orthogonal_offsets "(?e1, stack)"] by simp
qed

function flood_fill_loop :: "ecosystem \<Rightarrow> (int \<times> int) list \<Rightarrow> real \<Rightarrow> ecosystem" where
  "flood_fill_loop e [] water_amount = e"
| "flood_fill_loop e (p # stack) water_amount =
     flood_fill_loop (fst (flood_pop e p water_amount stack))
       (snd (flood_pop e p water_amount stack)) water_amount"
  by pat_completeness auto
termination
proof (relation "measure (\<lambda>(e, stack, amt). 2 * dry_count e + length stack)")
  show "wf (measure (\<lambda>(e, stack, amt). 2 * dry_count e + length stack))" by simp
next
  fix e p stack water_amount
  show "((fst (flood_pop e p water_amount stack), snd (flood_pop e p water_amount stack),
          water_amount), e, p # stack, water_amount)
        \<in> measure (\<lambda>(e, stack, amt). 2 * dry_count e + length stack)"
    using flood_pop_measure[of e p water_amount stack] by simp
qed

definition flood_fill :: "ecosystem \<Rightarrow> int \<times> int \<Rightarrow> real \<Rightarrow> ecosystem" where
  "flood_fill e p water_amount = flood_fill_loop e [p] water_amount"

definition adjust_neighbor :: "int \<times> int \<Rightarrow> int \<times> int \<Rightarrow> ecosystem \<Rightarrow> ecosystem" where
  "adjust_neighbor src tgt e =
     (if elevation (grid e tgt) < elevation (grid e src)
      then
        (let water_movement =
               min (water_volume (grid e src) * 0.05) (water_volume (grid e src));
             e1 = set_cell e tgt
                    ((grid e tgt)\<lparr>water_volume := water_volume (grid e tgt) + water_movement\<rparr>);
             e2 = set_cell e1 src
                    ((grid e1 src)\<lparr>water_volume := water_volume (grid e1 src) - water_movement\<rparr>);
             e3 = (if water_volume (grid e2 src) < 10
                   then set_cell e2 src (new_terrain Land (elevation (grid e2 src)) 0)
                   else e2)
         in if 10 < water_volume (grid e3 tgt) \<and> terrain_type (grid e3 tgt) \<noteq> Water
            then set_cell e3 tgt
                   (new_terrain Water (elevation (grid e3 tgt)) (water_volume (grid e3 tgt)))
            else e3)
      else e)"

definition adjust_cell :: "int \<times> int \<Rightarrow> ecosystem \<Rightarrow> ecosystem" where
  "adjust_cell p e =
     (if is_water e p then fold (adjust_neighbor p) (get_neighbors e (fst p) (snd p)) e
      else e)"

definition adjust_water_volume :: "ecosystem \<Rightarrow> ecosystem" where
  "adjust_water_volume e = fold adjust_cell (all_cells e) e"

definition flood_cell :: "int \<times> int \<Rightarrow> ecosystem \<Rightarrow> ecosystem" where
  "flood_cell p e = (if is_water e p then flood_fill e p 200 else e)"

definition precipitate :: "ecosystem \<Rightarrow> ecosystem" where
  "precipitate e =
     (let n = fst (random_randint 0 100 (random_state e));
          e1 = e\<lparr>random_state := snd (rng_next (random_state e))\<rparr>
      in if n < precipitation_level e1
         then adjust_water_volume (fold flood_cell (all_cells e1) e1)
         else e1)"

definition adjust_temperature :: "ecosystem \<Rightarrow> ecosystem" where
  "adjust_temperature e =
     (if \<not> manual_temperature_control e
      then e\<lparr>ambient_temperature := 10 * sin (pi * real_of_int (cycle e) / 180) + 20\<rparr>
      else e)"

definition heat_cell :: "int \<times> int \<Rightarrow> ecosystem \<Rightarrow> ecosystem" where
  "heat_cell p e =
     (if is_water e p then set_cell e p (new_terrain Land (elevation (grid e p)) 0) else e)"

definition handle_extreme_heat :: "ecosystem \<Rightarrow> ecosystem" where
  "handle_extreme_heat e =
     (if 100 \<le> ambient_temperature e then fold heat_cell (all_cells e) e else e)"

section \<open>Seasons\<close>

definition apply_seasonal_effects :: "season \<Rightarrow> ecosystem \<Rightarrow> ecosystem" where
  "apply_seasonal_effects s e =
     e\<lparr>ambient_temperature := ambient_temperature e + temperature_modifier s,
       plants := map (\<lambda>p. p\<lparr>nutrition := nutrition p * (food_growth_rate s / 2)\<rparr>) (plants e),
       predators :=
         map (\<lambda>p. p\<lparr>hunting_success_rate := hunting_success_rate p * predator_efficiency s\<rparr>)
           (predators e)\<rparr>"

definition change_season :: "ecosystem \<Rightarrow> ecosystem" where
  "change_season e =
     (let next_season_index = (current_season e + 1) mod length seasons
      in apply_seasonal_effects (seasons ! next_season_index)
           (e\<lparr>current_season := next_season_index, season_cycle := 0\<rparr>))"

definition update_season_cycle :: "ecosystem \<Rightarrow> ecosystem" where
  "update_season_cycle e =
     (let e1 = e\<lparr>season_cycle := season_cycle e + 1\<rparr>
      in if season_duration e1 \<le> season_cycle e1 then change_season e1 else e1)"

text \<open>The call of \<open>_evaporate_water\<close> is commented out in the source.\<close>

definition update_environment :: "ecosystem \<Rightarrow> ecosystem" where
  "update_environment e =
     update_season_cycle (handle_extreme_heat (precipitate (adjust_temperature e)))"

section \<open>Animals inside the ecosystem\<close>

text \<open>
  The rosters hold references to animal objects that the passes mutate in place. A
  reference is modelled by the roster and the position of the object in that roster's
  list; a method that mutates an animal writes the new value back at that position.
  Two references denote the same object exactly when they are equal. The herbivore
  roster only ever receives instances of \<open>Herbivore\<close> and the predator roster instances
  of \<open>Predator\<close>, so the roster of a reference is the class of its object: \<open>isinstance\<close>
  tests and the choice of an overridden method read it.
\<close>

datatype aref = HerbivoreAt nat | PredatorAt nat

fun get_animal :: "ecosystem \<Rightarrow> aref \<Rightarrow> animal" where
  "get_animal e (HerbivoreAt i) = herbivores e ! i"
| "get_animal e (PredatorAt i) = predators e ! i"

fun set_animal :: "ecosystem \<Rightarrow> aref \<Rightarrow> animal \<Rightarrow> ecosystem" where
  "set_animal e (HerbivoreAt i) a = e\<lparr>herbivores := (herbivores e)[i := a]\<rparr>"
| "set_animal e (PredatorAt i) a = e\<lparr>predators := (predators e)[i := a]\<rparr>"

definition all_animal_refs :: "ecosystem \<Rightarrow> aref list" where
  "all_animal_refs e =
     map HerbivoreAt [0..<length (herbivores e)] @ map PredatorAt [0..<length (predators e)]"

subsection \<open>Decay and drinking\<close>

definition handle_decay :: "ecosystem \<Rightarrow> aref \<Rightarrow> aref list \<Rightarrow> ecosystem \<times> aref list" where
  "handle_decay e ref remaining_animals =
     (if is_dead (get_animal e ref)
      then (let e1 = set_animal e ref (undergo_decay (get_animal e ref))
            in (e1, if 0 < decay (get_animal e1 ref) then remaining_animals @ [ref]
                    else remaining_animals))
      else (e, remaining_animals))"

definition handle_drinking :: "ecosystem \<Rightarrow> aref \<Rightarrow> ecosystem" where
  "handle_drinking e ref =
     (let a = get_animal e ref
      in if \<not> is_dead a \<and> private_is_adjacent_to_water e (row a) (col a)
         then set_animal e ref (a\<lparr>thirst := max (thirst a - 50) 0\<rparr>)
         else e)"

subsection \<open>Feeding\<close>

definition feed_herbivore :: "ecosystem \<Rightarrow> aref \<Rightarrow> int \<Rightarrow> int \<Rightarrow> ecosystem" where
  "feed_herbivore e ref r c =
     (if terrain_type (grid e (r, c)) = Vegetation
      then (let e1 = set_animal e ref (feed (get_animal e ref) plant_initial_nutrition)
            in set_cell e1 (r, c) (new_terrain Land (elevation (grid e1 (r, c))) 0))
      else e)"

definition is_adjacent :: "int \<Rightarrow> int \<Rightarrow> int \<Rightarrow> int \<Rightarrow> bool" where
  "is_adjacent row1 col1 row2 col2 \<longleftrightarrow> \<bar>row1 - row2\<bar> \<le> 1 \<and> \<bar>col1 - col2\<bar> \<le> 1"

definition is_near :: "animal \<Rightarrow> animal \<Rightarrow> bool" where
  "is_near p h \<longleftrightarrow> \<bar>row p - row h\<bar> \<le> 1 \<and> \<bar>col p - col h\<bar> \<le> 1"

definition remove_index :: "nat \<Rightarrow> 'a list \<Rightarrow> 'a list" where
  "remove_index j xs = take j xs @ drop (Suc j) xs"

text \<open>
  The prey is denoted by its position \<open>j\<close> in the herbivore list. \<open>list.remove(prey)\<close>
  removes the first entry that is this object, which is the entry at \<open>j\<close>.
\<close>

definition consume_prey :: "ecosystem \<Rightarrow> aref \<Rightarrow> nat \<Rightarrow> ecosystem" where
  "consume_prey e ref j =
     (let p = get_animal e ref;
          p1 = p\<lparr>hunger := max (hunger p - hunger_decrease_on_feed p) 0\<rparr>;
          p2 = p1\<lparr>thirst := max (thirst p1 - 50) 0\<rparr>;
          e1 = set_animal e ref p2
      in e1\<lparr>herbivores := remove_index j (herbivores e1)\<rparr>)"

definition hunt :: "ecosystem \<Rightarrow> aref \<Rightarrow> nat \<Rightarrow> ecosystem" where
  "hunt e ref j =
     (let p = get_animal e ref;
          e1 = set_animal e ref (p\<lparr>energy := energy p - 20\<rparr>);
          u = fst (random_random (random_state e1));
          e2 = e1\<lparr>random_state := snd (rng_next (random_state e1))\<rparr>
      in if u < hunting_success_rate (get_animal e2 ref)
         then consume_prey
                (e2\<lparr>herbivores := (herbivores e2)[j := die (herbivores e2 ! j) ''Predation'']\<rparr>)
                ref j
         else e2)"

definition find_nearby_prey :: "ecosystem \<Rightarrow> aref \<Rightarrow> nat list" where
  "find_nearby_prey e ref =
     filter (\<lambda>j. is_near (get_animal e ref) (herbivores e ! j)) [0..<length (herbivores e)]"

definition predator_feed :: "ecosystem \<Rightarrow> aref \<Rightarrow> ecosystem" where
  "predator_feed e ref =
     (let potential_prey = find_nearby_prey e ref
      in if potential_prey \<noteq> []
         then hunt (e\<lparr>random_state := snd (rng_next (random_state e))\<rparr>) ref
                (fst (random_choice potential_prey (random_state e)))
         else e)"

definition feed_predator :: "ecosystem \<Rightarrow> aref \<Rightarrow> ecosystem" where
  "feed_predator e ref =
     (let p = get_animal e ref
      in if list_ex (\<lambda>h. is_adjacent (row p) (col p) (row h) (col h) \<and> \<not> is_dead h)
              (herbivores e)
         then predator_feed e ref
         else e)"

definition handle_feeding :: "ecosystem \<Rightarrow> aref \<Rightarrow> ecosystem" where
  "handle_feeding e ref =
     (let a = get_animal e ref
      in if \<not> is_dead a
         then (case ref of
                 HerbivoreAt i \<Rightarrow> feed_herbivore e ref (row a) (col a)
               | PredatorAt i \<Rightarrow> feed_predator e ref)
         else e)"

subsection \<open>Movement\<close>

definition passable :: "ecosystem \<Rightarrow> int \<times> int \<Rightarrow> bool" where
  "passable e p \<longleftrightarrow> terrain_type (grid e p) = Land \<or> terrain_type (grid e p) = Vegetation"

definition candidate_moves :: "ecosystem \<Rightarrow> int \<Rightarrow> int \<Rightarrow> (int \<times> int) list" where
  "candidate_moves e r c =
     filter (passable e)
       (filter (\<lambda>(nr, nc). in_bounds e nr nc) (map (\<lambda>(i, j). (r + i, c + j)) offsets3))"

definition get_valid_moves :: "ecosystem \<Rightarrow> int \<Rightarrow> int \<Rightarrow> (int \<times> int) list \<times> rng" where
  "get_valid_moves e r c = random_shuffle (candidate_moves e r c) (random_state e)"

definition is_tile_occupied_by_same_species ::
  "ecosystem \<Rightarrow> int \<times> int \<Rightarrow> species \<Rightarrow> bool" where
  "is_tile_occupied_by_same_species e tile sp =
     list_ex (\<lambda>entry. snd entry = sp) (animals_on_tile e tile)"

definition is_within_radius :: "animal \<Rightarrow> animal \<Rightarrow> real \<Rightarrow> bool" where
  "is_within_radius animal1 animal2 radius \<longleftrightarrow>
     sqrt (real_of_int ((row animal1 - row animal2)\<^sup>2 + (col animal1 - col animal2)\<^sup>2))
       \<le> radius"

definition get_nearby_animals :: "ecosystem \<Rightarrow> aref \<Rightarrow> real \<Rightarrow> animal list" where
  "get_nearby_animals e ref radius =
     map (get_animal e)
       (filter (\<lambda>r. r \<noteq> ref \<and> is_adult (get_animal e r)
                  \<and> is_within_radius (get_animal e ref) (get_animal e r) radius)
          (all_animal_refs e))"

definition choose_new_location ::
  "animal \<Rightarrow> (int \<times> int) list \<Rightarrow> animal list \<Rightarrow> rng \<Rightarrow> (int \<times> int) \<times> rng" where
  "choose_new_location a valid_moves nearby_adults g =
     (if nearby_adults \<noteq> [] \<and> \<not> is_adult a
      then
        (let center_row = (\<Sum>h\<leftarrow>nearby_adults. real_of_int (row h)) / real (length nearby_adults);
             center_col = (\<Sum>h\<leftarrow>nearby_adults. real_of_int (col h)) / real (length nearby_adults)
         in (arg_min_list
               (\<lambda>pos. \<bar>real_of_int (fst pos) - center_row\<bar> + \<bar>real_of_int (snd pos) - center_col\<bar>)
               valid_moves, g))
      else random_choice valid_moves g)"

text \<open>
  \<open>Animal.move\<close>. \<open>self in animals_on_tile[...]\<close> and \<open>remove(self)\<close> compare by identity.
\<close>

definition animal_move ::
  "ecosystem \<Rightarrow> aref \<Rightarrow> (int \<times> int) list \<Rightarrow> animal list \<Rightarrow> ecosystem" where
  "animal_move e ref valid_moves nearby_adults =
     (let a = get_animal e ref
      in if valid_moves \<noteq> [] \<and> 0 < energy a \<and> \<not> is_dead a
         then
           (let free_moves =
                  filter (\<lambda>m. \<not> is_tile_occupied_by_same_species e m (species a)) valid_moves
            in if free_moves \<noteq> []
               then
                 (let new_pos = fst (choose_new_location a free_moves nearby_adults (random_state e));
                      g = snd (choose_new_location a free_moves nearby_adults (random_state e));
                      old_pos = (row a, col a);
                      entry = (animal_id a, species a);
                      tiles1 = (if entry \<in> set (animals_on_tile e old_pos)
                                then (animals_on_tile e)
                                       (old_pos := remove1 entry (animals_on_tile e old_pos))
                                else animals_on_tile e);
                      tiles2 = tiles1(new_pos := tiles1 new_pos @ [entry])
                  in (set_animal e ref (a\<lparr>row := fst new_pos, col := snd new_pos\<rparr>))
                       \<lparr>animals_on_tile := tiles2, random_state := g\<rparr>)
               else e)
         else e)"

definition handle_movement :: "ecosystem \<Rightarrow> aref \<Rightarrow> ecosystem" where
  "handle_movement e ref =
     (let a = get_animal e ref
      in if \<not> is_dead a
         then (let valid_moves = fst (get_valid_moves e (row a) (col a));
                   e1 = e\<lparr>random_state := snd (get_valid_moves e (row a) (col a))\<rparr>
               in animal_move e1 ref valid_moves (get_nearby_animals e1 ref 5))
         else e)"

text \<open>\<open>Predator.move\<close> ignores the other animals and leaves \<open>animals_on_tile\<close> alone.\<close>

definition predator_move :: "ecosystem \<Rightarrow> aref \<Rightarrow> (int \<times> int) list \<Rightarrow> ecosystem" where
  "predator_move e ref valid_moves =
     (let p = get_animal e ref
      in if valid_moves \<noteq> [] \<and> 0 < energy p \<and> \<not> is_dead p
         then (let new_pos = fst (random_choice valid_moves (random_state e))
               in (set_animal e ref
                     (p\<lparr>row := fst new_pos, col := snd new_pos, energy := energy p - 1\<rparr>))
                    \<lparr>random_state := snd (rng_next (random_state e))\<rparr>)
         else e)"

subsection \<open>Reproduction and waste\<close>

definition meets_reproduction_conditions :: "animal \<Rightarrow> animal \<Rightarrow> bool" where
  "meets_reproduction_conditions a other \<longleftrightarrow>
     is_adult a \<and> is_adult other \<and> species a = species other \<and> sex a = Female
     \<and> \<not> sex other = Female \<and> \<not> is_dead a \<and> \<not> is_dead other"

definition initiate_pregnancy :: "animal \<Rightarrow> animal" where
  "initiate_pregnancy a = a\<lparr>gestation_period := 100, is_pregnant := True\<rparr>"

definition animal_reproduce :: "animal \<Rightarrow> animal \<Rightarrow> animal" where
  "animal_reproduce a other =
     (if meets_reproduction_conditions a other then initiate_pregnancy a else a)"

text \<open>The method that Python's dispatch selects: herbivores override \<open>reproduce\<close>.\<close>

definition reproduce :: "aref \<Rightarrow> animal \<Rightarrow> animal \<Rightarrow> animal" where
  "reproduce ref a other =
     (case ref of
        HerbivoreAt i \<Rightarrow> herbivore_reproduce a other
      | PredatorAt i \<Rightarrow> animal_reproduce a other)"

definition get_same_species :: "ecosystem \<Rightarrow> aref \<Rightarrow> animal list" where
  "get_same_species e ref =
     (case ref of
        HerbivoreAt i \<Rightarrow>
          map (get_animal e)
            (filter (\<lambda>r. r \<noteq> ref) (map HerbivoreAt [0..<length (herbivores e)]))
      | PredatorAt i \<Rightarrow>
          map (get_animal e)
            (filter (\<lambda>r. r \<noteq> ref) (map PredatorAt [0..<length (predators e)])))"

definition can_reproduce_together :: "animal \<Rightarrow> animal \<Rightarrow> bool" where
  "can_reproduce_together animal1 animal2 \<longleftrightarrow>
     species animal1 = species animal2 \<and> sex animal1 \<noteq> sex animal2
     \<and> \<bar>row animal1 - row animal2\<bar> \<le> 1 \<and> \<bar>col animal1 - col animal2\<bar> \<le> 1"

text \<open>
  Both \<open>reproduce\<close> methods return \<open>None\<close> on every path, so the branch of
  \<open>handle_reproduction\<close> that appends a child and leaves the loop is never taken: the
  loop visits every other animal of the species and \<open>new_animals\<close> is returned as it was.
\<close>

definition handle_reproduction ::
  "ecosystem \<Rightarrow> aref \<Rightarrow> animal list \<Rightarrow> ecosystem \<times> animal list" where
  "handle_reproduction e ref new_animals =
     (set_animal e ref
        (fold (\<lambda>other a. if can_reproduce_together a other then reproduce ref a other else a)
           (get_same_species e ref) (get_animal e ref)),
      new_animals)"

definition defecate :: "ecosystem \<Rightarrow> aref \<Rightarrow> ecosystem" where
  "defecate e ref =
     (let a = get_animal e ref;
          e1 = set_animal e ref (a\<lparr>colon := 0\<rparr>)
      in set_cell e1 (row a, col a) ((grid e1 (row a, col a))\<lparr>feces := True\<rparr>))"

definition urinate :: "ecosystem \<Rightarrow> aref \<Rightarrow> ecosystem" where
  "urinate e ref =
     (let a = get_animal e ref;
          e1 = set_animal e ref (a\<lparr>bladder := 0\<rparr>)
      in set_cell e1 (row a, col a) ((grid e1 (row a, col a))\<lparr>urine := True\<rparr>))"

section \<open>The passes of a tick\<close>

text \<open>
  One iteration of the loop in \<open>update_herbivores\<close>. The lists \<open>remaining_herbivores\<close>
  and \<open>new_herbivores\<close> are carried along; the first holds references, which are read
  when the pass ends.
\<close>

definition herbivore_step ::
  "nat \<Rightarrow> ecosystem \<times> aref list \<times> animal list \<Rightarrow> ecosystem \<times> aref list \<times> animal list" where
  "herbivore_step i s =
     (let e = fst s; remaining = fst (snd s); new_herbivores = snd (snd s);
          ref = HerbivoreAt i;
          e1 = fst (handle_decay e ref remaining);
          remaining1 = snd (handle_decay e ref remaining);
          e2 = set_animal e1 ref (handle_vital_stats (get_animal e1 ref))
      in if \<not> is_dead (get_animal e2 ref)
         then
           (let e3 = handle_feeding e2 ref;
                e4 = handle_drinking e3 ref;
                e5 = handle_movement e4 ref;
                e6 = fst (handle_reproduction e5 ref new_herbivores);
                new1 = snd (handle_reproduction e5 ref new_herbivores);
                e7 = defecate e6 ref;
                e8 = urinate e7 ref
            in (e8, remaining1 @ [ref], new1))
         else (e2, remaining1, new_herbivores))"

definition update_herbivores :: "ecosystem \<Rightarrow> ecosystem" where
  "update_herbivores e =
     (let s = fold herbivore_step [0..<length (herbivores e)] (e, [], []);
          e' = fst s
      in e'\<lparr>herbivores := map (get_animal e') (fst (snd s)) @ snd (snd s)\<rparr>)"

definition predator_step :: "nat \<Rightarrow> ecosystem \<times> aref list \<Rightarrow> ecosystem \<times> aref list" where
  "predator_step i s =
     (let e = fst s; remaining = snd s;
          ref = PredatorAt i;
          e1 = set_animal e ref (handle_vital_stats (get_animal e ref))
      in if \<not> is_dead (get_animal e1 ref)
         then
           (let p = get_animal e1 ref;
                valid_moves = fst (get_valid_moves e1 (row p) (col p));
                e2 = predator_move
                       (e1\<lparr>random_state := snd (get_valid_moves e1 (row p) (col p))\<rparr>)
                       ref valid_moves;
                e3 = handle_drinking e2 ref;
                e4 = handle_feeding e3 ref
            in (e4, remaining @ [ref]))
         else (e1, remaining))"

definition update_predators :: "ecosystem \<Rightarrow> ecosystem" where
  "update_predators e =
     (let s = fold predator_step [0..<length (predators e)] (e, []);
          e' = fst s
      in e'\<lparr>predators := map (get_animal e') (snd s)\<rparr>)"

definition grow_cell :: "int \<times> int \<Rightarrow> ecosystem \<Rightarrow> ecosystem" where
  "grow_cell p e =
     (if terrain_type (grid e p) = Land
      then (let u = fst (random_random (random_state e));
                e1 = e\<lparr>random_state := snd (rng_next (random_state e))\<rparr>
            in if u < 0.01
               then (set_cell e1 p (new_terrain Vegetation (elevation (grid e1 p)) 0))
                      \<lparr>plants := plants e1 @ [new_plant]\<rparr>
               else e1)
      else e)"

definition grow_plants :: "ecosystem \<Rightarrow> ecosystem" where
  "grow_plants e = fold grow_cell (all_cells e) e"

definition update_plants :: "ecosystem \<Rightarrow> ecosystem" where
  "update_plants e =
     e\<lparr>plants :=
         filter (\<lambda>p. \<not> plant_is_dead p)
           (map (\<lambda>p. plant_handle_vital_stats
                       (p\<lparr>plant_ambient_temperature := ambient_temperature e\<rparr>))
              (plants e))\<rparr>"

definition drift_body_temperature :: "real \<Rightarrow> animal \<Rightarrow> animal" where
  "drift_body_temperature t a =
     a\<lparr>body_temperature := body_temperature a + (t - body_temperature a) * 0.01\<rparr>"

definition update_animal_body_temperature_and_plant_nutrition :: "ecosystem \<Rightarrow> ecosystem" where
  "update_animal_body_temperature_and_plant_nutrition e =
     e\<lparr>herbivores := map (drift_body_temperature (ambient_temperature e)) (herbivores e),
       predators := map (drift_body_temperature (ambient_temperature e)) (predators e),
       plants :=
         map (\<lambda>p. p\<lparr>nutrition := nutrition p + (ambient_temperature e - 20) * 0.1\<rparr>)
           (plants e)\<rparr>"

definition update_population_data :: "ecosystem \<Rightarrow> ecosystem" where
  "update_population_data e =
     e\<lparr>herbivore_population_data :=
         herbivore_population_data e @ [length (filter (\<lambda>h. \<not> is_dead h) (herbivores e))],
       predator_population_data :=
         predator_population_data e @ [length (filter (\<lambda>p. \<not> is_dead p) (predators e))],
       plant_population_data := plant_population_data e @ [length (plants e)]\<rparr>"

text \<open>\<open>Ecosystem.update\<close>; \<open>print_daily_summary\<close> changes nothing.\<close>

definition update :: "ecosystem \<Rightarrow> ecosystem" where
  "update e =
     (let e1 = update_environment e;
          e2 = update_herbivores e1;
          e3 = update_predators e2;
          e4 = grow_plants e3;
          e5 = update_plants e4;
          e6 = update_animal_body_temperature_and_plant_nutrition e5;
          e7 = update_population_data e6
      in e7\<lparr>cycle := cycle e7 + 1\<rparr>)"

section \<open>Constructing animals\<close>

text \<open>
  \<open>Animal.__init__\<close> with \<open>_initialize_basic_attributes\<close> and
  \<open>_initialize_biological_attributes\<close>. The identifier is the value of the global
  counter, passed in. The generator is asked, in this order, for: the coin for the age,
  the age itself when the coin says so, the maximal age, strength, agility, wisdom,
  intelligence, fertility, and then seven more values for attributes that the record
  leaves out. An attribute that the class of the animal does not have keeps the value 0.
\<close>

definition skip_draws :: "nat \<Rightarrow> rng \<Rightarrow> rng" where
  "skip_draws n g = (\<lambda>i. g (i + n))"

definition new_animal ::
  "nat \<Rightarrow> int \<Rightarrow> int \<Rightarrow> real \<Rightarrow> sex \<Rightarrow> species \<Rightarrow> rng \<Rightarrow> animal \<times> rng" where
  "new_animal ident r c spd sx sp g =
     (let coin = fst (random_choice [True, False] g);
          g1 = snd (rng_next g);
          initial_age = (if coin then fst (random_randint 20 40 g1) else 0);
          g2 = (if coin then snd (rng_next g1) else g1);
          oldest = fst (random_randint 50 100 g2);
          g3 = skip_draws 4 (snd (rng_next g2));
          fert = fst (random_uniform 0.5 1.5 g3);
          g4 = skip_draws 7 (snd (rng_next g3))
      in (\<lparr>animal_id = ident, row = r, col = c, speed = spd, sex = sx, species = sp,
           hunger = 0, thirst = 0, energy = 100, age = initial_age, is_adult = False,
           is_dead = False, cause_of_death = None, decay = 100, max_age = oldest,
           body_temperature = 37.0, fertility = fert, gestation_period = 0,
           reproduction_cooldown = 0, is_pregnant = False, colon = 0, bladder = 0,
           born = True, hunting_success_rate = 0, hunger_decrease_on_feed = 0\<rparr>, g4))"

text \<open>\<open>Herbivore.__init__\<close> draws one more value, for the reproduction count.\<close>

definition new_herbivore :: "nat \<Rightarrow> int \<Rightarrow> int \<Rightarrow> real \<Rightarrow> sex \<Rightarrow> rng \<Rightarrow> animal \<times> rng" where
  "new_herbivore ident r c spd sx g =
     (let a = fst (new_animal ident r c spd sx Herbivore g);
          g1 = snd (new_animal ident r c spd sx Herbivore g)
      in (a\<lparr>gestation_period := 40, is_pregnant := False, reproduction_cooldown := 0\<rparr>,
          snd (rng_next g1)))"

text \<open>\<open>Predator.__init__\<close> draws one more value, for the immune system.\<close>

definition new_predator :: "nat \<Rightarrow> int \<Rightarrow> int \<Rightarrow> real \<Rightarrow> sex \<Rightarrow> rng \<Rightarrow> animal \<times> rng" where
  "new_predator ident r c spd sx g =
     (let a = fst (new_animal ident r c spd sx Predator g);
          g1 = snd (new_animal ident r c spd sx Predator g)
      in (a\<lparr>hunting_success_rate := calculate_hunting_success_rate spd,
            hunger_decrease_on_feed := 80\<rparr>,
          snd (rng_next g1)))"

section \<open>Scenarios\<close>

text \<open>
  Concrete worlds on which the definitions are run. The generator that always
  returns 0 makes every constructed animal 20 ticks old, with maximal age 50 and
  fertility 0.5.
\<close>

definition zero_rng :: rng where
  "zero_rng = (\<lambda>i. 0)"

definition valid_ref :: "ecosystem \<Rightarrow> aref \<Rightarrow> bool" where
  "valid_ref e ref =
     (case ref of HerbivoreAt i \<Rightarrow> i < length (herbivores e)
      | PredatorAt i \<Rightarrow> i < length (predators e))"

definition sample_herbivore :: animal where
  "sample_herbivore = fst (new_herbivore 0 1 1 1 Female zero_rng)"

definition sample_predator :: animal where
  "sample_predator = fst (new_predator 1 1 1 1 Male zero_rng)"

text \<open>A 3 by 3 world of land with water in one corner and a thirsty herbivore in the middle.\<close>

definition diagonal_water_world :: ecosystem where
  "diagonal_water_world =
     (set_cell (blank_ecosystem 3 3 zero_rng) (0, 0) (new_terrain Water 0 100))
       \<lparr>herbivores := [sample_herbivore\<lparr>thirst := 60\<rparr>]\<rparr>"

text \<open>The same with the water directly above the herbivore.\<close>

definition orthogonal_water_world :: ecosystem where
  "orthogonal_water_world =
     (set_cell (blank_ecosystem 3 3 zero_rng) (0, 1) (new_terrain Water 0 100))
       \<lparr>herbivores := [sample_herbivore\<lparr>thirst := 60\<rparr>]\<rparr>"

text \<open>A herbivore and a predator that have not eaten for nine ticks.\<close>

definition starving_world :: ecosystem where
  "starving_world =
     (blank_ecosystem 3 3 zero_rng)
       \<lparr>herbivores := [sample_herbivore\<lparr>hunger := 90\<rparr>],
        predators := [sample_predator\<lparr>hunger := 90\<rparr>]\<rparr>"

text \<open>
  A fresh herbivore standing on vegetation, next to a predator that five hunts have
  left with 15 units of energy.
\<close>

definition pasture_world :: ecosystem where
  "pasture_world =
     (set_cell (blank_ecosystem 3 3 zero_rng) (1, 1) (new_terrain Vegetation 50 0))
       \<lparr>herbivores := [sample_herbivore],
        predators := [sample_predator\<lparr>energy := 15\<rparr>]\<rparr>"

section \<open>Relations between the states of a tick\<close>

text \<open>
  The predicates below are not part of the program: they say how the state after an
  operation is related to the state before it, and the proofs are stated with them.
\<close>

definition same_animals :: "ecosystem \<Rightarrow> ecosystem \<Rightarrow> bool" where
  "same_animals e e' \<longleftrightarrow>
     herbivores e' = herbivores e \<and> predators e' = predators e
     \<and> animals_on_tile e' = animals_on_tile e \<and> rows e' = rows e \<and> cols e' = cols e"

text \<open>
  A change of season rescales the hunting rate of every predator, the end of a tick
  moves the body temperature; neither touches another attribute of an animal.
\<close>

definition core :: "animal \<Rightarrow> animal" where
  "core a = a\<lparr>hunting_success_rate := 0, body_temperature := 0\<rparr>"

definition same_core :: "animal \<Rightarrow> animal \<Rightarrow> bool" where
  "same_core a a' \<longleftrightarrow> core a' = core a"

text \<open>
  \<open>keeps a a'\<close>: the animal \<open>a'\<close> is a later state of \<open>a\<close> in which the identity and the
  fertility are the same, a pregnancy has begun only if the fertility had reached 8,
  and a dead animal has stayed dead.
\<close>

definition keeps :: "animal \<Rightarrow> animal \<Rightarrow> bool" where
  "keeps a a' \<longleftrightarrow>
     animal_id a' = animal_id a \<and> fertility a' = fertility a
     \<and> (is_pregnant a' \<longrightarrow> is_pregnant a \<or> 8 \<le> fertility a)
     \<and> (is_dead a \<longrightarrow> is_dead a')"

definition keeps_alive :: "animal \<Rightarrow> animal \<Rightarrow> bool" where
  "keeps_alive a a' \<longleftrightarrow> keeps a a' \<and> is_dead a' = is_dead a"

text \<open>\<open>at_index R i xs ys\<close>: the list \<open>ys\<close> is \<open>xs\<close> with the entry at \<open>i\<close> moved along \<open>R\<close>.\<close>

definition at_index :: "('a \<Rightarrow> 'a \<Rightarrow> bool) \<Rightarrow> nat \<Rightarrow> 'a list \<Rightarrow> 'a list \<Rightarrow> bool" where
  "at_index R i xs ys \<longleftrightarrow>
     length ys = length xs \<and> (\<forall>k. k \<noteq> i \<longrightarrow> ys ! k = xs ! k) \<and> R (xs ! i) (ys ! i)"

definition predator_pass_inv :: "ecosystem \<Rightarrow> nat \<Rightarrow> ecosystem \<times> aref list \<Rightarrow> bool" where
  "predator_pass_inv e k s \<longleftrightarrow>
     list_all2 keeps (predators e) (predators (fst s))
     \<and> set (herbivores (fst s)) \<subseteq> set (herbivores e)
     \<and> rows (fst s) = rows e \<and> cols (fst s) = cols e
     \<and> length (snd s) \<le> k
     \<and> (\<forall>ref\<in>set (snd s). \<exists>j<k. ref = PredatorAt j \<and> \<not> is_dead (predators (fst s) ! j))"

text \<open>\<open>descends R xs ys\<close>: every entry of \<open>ys\<close> is a later state, along \<open>R\<close>, of an entry of \<open>xs\<close>.\<close>

definition descends :: "('a \<Rightarrow> 'a \<Rightarrow> bool) \<Rightarrow> 'a list \<Rightarrow> 'a list \<Rightarrow> bool" where
  "descends R xs ys \<longleftrightarrow> (\<forall>y\<in>set ys. \<exists>x\<in>set xs. R x y)"

definition herbivore_pass_inv ::
  "ecosystem \<Rightarrow> nat \<Rightarrow> ecosystem \<times> aref list \<times> animal list \<Rightarrow> bool" where
  "herbivore_pass_inv e k s \<longleftrightarrow>
     list_all2 keeps (herbivores e) (herbivores (fst s))
     \<and> rows (fst s) = rows e \<and> cols (fst s) = cols e
     \<and> set (fst (snd s)) \<subseteq> HerbivoreAt ` {0..<k}
     \<and> snd (snd s) = []"

text \<open>The states between the passes of one tick.\<close>

definition after_herbivores :: "ecosystem \<Rightarrow> ecosystem" where
  "after_herbivores e = update_herbivores (update_environment e)"

definition after_predators :: "ecosystem \<Rightarrow> ecosystem" where
  "after_predators e = update_predators (after_herbivores e)"

definition after_plants :: "ecosystem \<Rightarrow> ecosystem" where
  "after_plants e = update_plants (grow_plants (after_predators e))"

definition position :: "animal \<Rightarrow> int \<times> int" where
  "position a = (row a, col a)"

definition free_moves :: "ecosystem \<Rightarrow> animal \<Rightarrow> (int \<times> int) list" where
  "free_moves e a =
     filter (\<lambda>m. \<not> is_tile_occupied_by_same_species e m (species a))
       (candidate_moves e (row a) (col a))"

text \<open>
  \<open>moved e a a'\<close>: if \<open>a\<close> is alive, has energy, and some candidate cell around it lists no
  animal of its species in the index of \<open>e\<close>, then \<open>a'\<close> stands on such a cell; otherwise
  \<open>a'\<close> stands where \<open>a\<close> stood.
\<close>

definition moved :: "ecosystem \<Rightarrow> animal \<Rightarrow> animal \<Rightarrow> bool" where
  "moved e a a' \<longleftrightarrow>
     (if free_moves e a \<noteq> [] \<and> 0 < energy a \<and> \<not> is_dead a
      then position a' \<in> set (free_moves e a)
      else position a' = position a)"

definition stays :: "animal \<Rightarrow> animal \<Rightarrow> bool" where
  "stays a a' \<longleftrightarrow>
     row a' = row a \<and> col a' = col a \<and> species a' = species a \<and> is_dead a' = is_dead a
     \<and> (0 < energy a \<longrightarrow> 0 < energy a')"

text \<open>\<open>same_ground e e'\<close>: between \<open>e\<close> and \<open>e'\<close> neither the bounds, nor the passable
  cells, nor the index of animals per tile have changed.\<close>

definition same_ground :: "ecosystem \<Rightarrow> ecosystem \<Rightarrow> bool" where
  "same_ground e e' \<longleftrightarrow>
     rows e' = rows e \<and> cols e' = cols e \<and> passable e' = passable e
     \<and> animals_on_tile e' = animals_on_tile e"

definition lonely_world :: "animal \<Rightarrow> (int \<times> int \<Rightarrow> (nat \<times> species) list) \<Rightarrow> rng \<Rightarrow> ecosystem" where
  "lonely_world h tiles g =
     (blank_ecosystem 10 10 g)\<lparr>herbivores := [h], animals_on_tile := tiles\<rparr>"

definition list_rng :: "nat list \<Rightarrow> rng" where
  "list_rng xs = (\<lambda>i. if i < length xs then xs ! i else 0)"

definition corner_herbivore :: animal where
  "corner_herbivore = fst (new_herbivore 0 0 0 1 Female zero_rng)"

section \<open>Evaluating the scenarios\<close>

lemma rng_next_zero: "rng_next zero_rng = (0, zero_rng)"
  by (simp add: rng_next_def zero_rng_def)

lemma skip_draws_zero: "skip_draws n zero_rng = zero_rng"
  by (simp add: skip_draws_def zero_rng_def)

lemma sample_herbivore_eq: "sample_herbivore = 
 \<lparr>animal_id = 0, row = 1, col = 1, speed = 1, sex = Female,
     species = Herbivore, hunger = 0, thirst = 0, energy = 100, age = 20,
     is_adult = False, is_dead = False, cause_of_death = None, decay = 100,
     max_age = 50, body_temperature = 37, fertility = 1 / 2,
     gestation_period = 40, reproduction_cooldown = 0, is_pregnant = False,
     colon = 0, bladder = 0, born = True, hunting_success_rate = 0,
     hunger_decrease_on_feed = 0\<rparr>"
  by (simp add: sample_herbivore_def new_herbivore_def new_animal_def Let_def random_choice_def
      randbelow_def rng_next_zero random_randint_def random_uniform_def random_random_def
      skip_draws_zero)

lemma sample_predator_eq: "sample_predator = 
 \<lparr>animal_id = 1, row = 1, col = 1, speed = 1, sex = Male,
     species = Predator, hunger = 0, thirst = 0, energy = 100, age = 20,
     is_adult = False, is_dead = False, cause_of_death = None, decay = 100,
     max_age = 50, body_temperature = 37, fertility = 1 / 2,
     gestation_period = 0, reproduction_cooldown = 0, is_pregnant = False,
     colon = 0, bladder = 0, born = True, hunting_success_rate = - 23 / 10,
     hunger_decrease_on_feed = 80\<rparr>"
  by (simp add: sample_predator_def new_predator_def new_animal_def Let_def random_choice_def
      randbelow_def rng_next_zero random_randint_def random_uniform_def random_random_def
      skip_draws_zero calculate_hunting_success_rate_def)

lemma get_set_animal: "valid_ref e ref \<Longrightarrow> get_animal (set_animal e ref a) ref = a"
  by (cases ref) (simp_all add: valid_ref_def)

section \<open>Hunting success rate\<close>

text \<open>
  C3, as stated: the rate of a predator built with speed \<open>s\<close> is
  \<open>clamp(0.2 + (s - 3.5), 0, 1)\<close>, never below 0. The code takes only the minimum with 1
  ("ensure it doesn't exceed 100%"); at speed 1, inside the range [0.5, 1.5] from which
  every initial predator's speed is drawn, the rate is -2.3.
\<close>

theorem hunting_success_rate_negative_at_speed_1:
  "calculate_hunting_success_rate 1 = - 23 / 10
   \<and> calculate_hunting_success_rate 1 < 0
   \<and> calculate_hunting_success_rate 1 \<noteq> spec_clamp (0.2 + (1 - 3.5)) 0 1"
  by (simp add: calculate_hunting_success_rate_def spec_clamp_def)

text \<open>
  C3, amended: the rate is \<open>min(0.2 + (s - 3.5), 1)\<close>. It never exceeds 1, it is negative
  exactly for speeds below 3.3, and it agrees with the specification's clamp exactly
  for speeds from 3.3 upwards.
\<close>

theorem hunting_success_rate_upper_clamp_only:
  "calculate_hunting_success_rate s = min (0.2 + (s - 3.5)) 1
   \<and> calculate_hunting_success_rate s \<le> 1
   \<and> ((calculate_hunting_success_rate s < 0) = (s < 33 / 10))
   \<and> ((calculate_hunting_success_rate s = spec_clamp (0.2 + (s - 3.5)) 0 1) = (33 / 10 \<le> s))"
  by (auto simp add: calculate_hunting_success_rate_def spec_clamp_def min_def max_def)

section \<open>Death conditions\<close>

lemma aged_fields:
  "age (increase_thirst (increase_hunger (age_animal a))) = age a + 1"
  "max_age (increase_thirst (increase_hunger (age_animal a))) = max_age a"
  "is_dead (increase_thirst (increase_hunger (age_animal a))) = is_dead a"
  "hunger (increase_thirst (increase_hunger (age_animal a))) = min (hunger a + 10) 100"
  by (simp_all add: increase_thirst_def increase_hunger_def age_animal_def Let_def)

lemma regenerate_energy_death:
  "is_dead (regenerate_energy a) = is_dead a"
  "cause_of_death (regenerate_energy a) = cause_of_death a"
  by (simp_all add: regenerate_energy_def)

lemma die_alive: "\<not> is_dead a \<Longrightarrow> is_dead (die a c) \<and> cause_of_death (die a c) = Some c"
  by (simp add: die_def)

lemma vital_stats_old_age:
  assumes "\<not> is_dead a" and "max_age a \<le> age a + 1"
  shows "is_dead (handle_vital_stats a)
         \<and> cause_of_death (handle_vital_stats a) = Some ''Old Age''"
proof -
  let ?b = "increase_thirst (increase_hunger (age_animal a))"
  have nd: "\<not> is_dead ?b" using assms(1) by (simp add: aged_fields)
  have "max_age ?b \<le> age ?b" using assms(2) by (simp add: aged_fields)
  then have "check_death_conditions ?b = die ?b ''Old Age''"
    by (simp only: check_death_conditions_def if_True)
  then have "handle_vital_stats a = regenerate_energy (die ?b ''Old Age'')"
    by (simp only: handle_vital_stats_def)
  moreover note die_alive[OF nd, of "''Old Age''"]
  ultimately show ?thesis by (simp only: regenerate_energy_death)
qed

lemma vital_stats_starvation:
  assumes "\<not> is_dead a" and "hunger a = 100" and "age a + 1 < max_age a"
  shows "is_dead (handle_vital_stats a)
         \<and> cause_of_death (handle_vital_stats a) = Some ''Starvation''"
proof -
  let ?b = "increase_thirst (increase_hunger (age_animal a))"
  have nd: "\<not> is_dead ?b" using assms(1) by (simp add: aged_fields)
  have "\<not> max_age ?b \<le> age ?b" using assms(3) by (simp add: aged_fields)
  moreover have "100 \<le> hunger ?b" using assms(2) by (simp add: aged_fields)
  ultimately have "check_death_conditions ?b = die ?b ''Starvation''"
    by (simp only: check_death_conditions_def if_True if_False)
  then have "handle_vital_stats a = regenerate_energy (die ?b ''Starvation'')"
    by (simp only: handle_vital_stats_def)
  moreover note die_alive[OF nd, of "''Starvation''"]
  ultimately show ?thesis by (simp only: regenerate_energy_death)
qed

lemma death_check_on_the_living:
  "\<not> is_dead a \<Longrightarrow>
        is_dead (check_death_conditions a)
          = (max_age a \<le> age a \<or> 100 \<le> hunger a \<or> 100 \<le> thirst a
             \<or> 42 \<le> body_temperature a \<or> energy a \<le> 0)
        \<and> cause_of_death (check_death_conditions a)
          = (if max_age a \<le> age a then Some ''Old Age''
             else if 100 \<le> hunger a then Some ''Starvation''
             else if 100 \<le> thirst a then Some ''Dehydration''
             else if 42 \<le> body_temperature a then Some ''Hyperthermia''
             else if energy a \<le> 0 then Some ''Exhaustion''
             else cause_of_death a)"
  by (simp add: die_def check_death_conditions_def)

lemma death_is_terminal: "is_dead a \<Longrightarrow> die a c = a \<and> check_death_conditions a = a"
  by (simp add: die_def check_death_conditions_def)

text \<open>
  C5, as stated, says that an animal entering \<open>handle_vital_stats\<close> with hunger 100 and
  with no condition of higher priority holding dies of starvation in that call. The call
  ages the animal before it checks for death: a live animal of age 49 with maximal age 50
  enters with its age below the maximum, and leaves dead of old age.
\<close>

theorem aging_precedes_the_death_check:
  "\<not> is_dead (sample_herbivore\<lparr>hunger := 100, age := 49\<rparr>)
   \<and> hunger (sample_herbivore\<lparr>hunger := 100, age := 49\<rparr>) = 100
   \<and> age (sample_herbivore\<lparr>hunger := 100, age := 49\<rparr>) = 49
   \<and> max_age (sample_herbivore\<lparr>hunger := 100, age := 49\<rparr>) = 50
   \<and> age (sample_herbivore\<lparr>hunger := 100, age := 49\<rparr>)
       < max_age (sample_herbivore\<lparr>hunger := 100, age := 49\<rparr>)
   \<and> is_dead (handle_vital_stats (sample_herbivore\<lparr>hunger := 100, age := 49\<rparr>))
   \<and> cause_of_death (handle_vital_stats (sample_herbivore\<lparr>hunger := 100, age := 49\<rparr>))
       = Some ''Old Age''
   \<and> cause_of_death (handle_vital_stats (sample_herbivore\<lparr>hunger := 100, age := 49\<rparr>))
       \<noteq> Some ''Starvation''"
  by (simp add: sample_herbivore_eq handle_vital_stats_def regenerate_energy_def
      check_death_conditions_def die_def increase_thirst_def increase_hunger_def
      age_animal_def Let_def)

text \<open>
  C5, amended: the death check tests age, hunger, thirst, body temperature and energy in
  this order and records the cause of the first condition that holds; on a dead animal
  \<open>die\<close> and the check change nothing. \<open>handle_vital_stats\<close> adds 1 to the age before the
  check, so a live animal that enters it with hunger 100 leaves it dead of starvation
  exactly when the incremented age is still below the maximal age
  (\<open>age + 1 < max_age\<close> at entry), and dead of old age otherwise.
\<close>

theorem death_check_priority_and_terminal:
  "(is_dead a \<longrightarrow> die a c = a \<and> check_death_conditions a = a)
   \<and> (\<not> is_dead a \<longrightarrow>
        is_dead (check_death_conditions a)
          = (max_age a \<le> age a \<or> 100 \<le> hunger a \<or> 100 \<le> thirst a
             \<or> 42 \<le> body_temperature a \<or> energy a \<le> 0)
        \<and> cause_of_death (check_death_conditions a)
          = (if max_age a \<le> age a then Some ''Old Age''
             else if 100 \<le> hunger a then Some ''Starvation''
             else if 100 \<le> thirst a then Some ''Dehydration''
             else if 42 \<le> body_temperature a then Some ''Hyperthermia''
             else if energy a \<le> 0 then Some ''Exhaustion''
             else cause_of_death a))
   \<and> (\<not> is_dead a \<and> hunger a = 100 \<and> age a + 1 < max_age a \<longrightarrow>
        is_dead (handle_vital_stats a)
        \<and> cause_of_death (handle_vital_stats a) = Some ''Starvation'')
   \<and> (\<not> is_dead a \<and> hunger a = 100 \<and> max_age a \<le> age a + 1 \<longrightarrow>
        is_dead (handle_vital_stats a)
        \<and> cause_of_death (handle_vital_stats a) = Some ''Old Age'')"
  using death_is_terminal[of a c] death_check_on_the_living[of a]
    vital_stats_starvation[of a] vital_stats_old_age[of a]
  by blast

theorem death_check_priority_and_terminal_witness:
  "is_dead (die sample_herbivore ''Predation'')
   \<and> die (die sample_herbivore ''Predation'') ''Starvation'' = die sample_herbivore ''Predation''
   \<and> cause_of_death (check_death_conditions (die sample_herbivore ''Predation''))
       = Some ''Predation''
   \<and> \<not> is_dead (sample_herbivore\<lparr>hunger := 100\<rparr>)
   \<and> hunger (sample_herbivore\<lparr>hunger := 100\<rparr>) = 100
   \<and> age (sample_herbivore\<lparr>hunger := 100\<rparr>) + 1 < max_age (sample_herbivore\<lparr>hunger := 100\<rparr>)
   \<and> is_dead (handle_vital_stats (sample_herbivore\<lparr>hunger := 100\<rparr>))
   \<and> cause_of_death (handle_vital_stats (sample_herbivore\<lparr>hunger := 100\<rparr>)) = Some ''Starvation''
   \<and> max_age (sample_herbivore\<lparr>hunger := 100, age := 49\<rparr>)
       \<le> age (sample_herbivore\<lparr>hunger := 100, age := 49\<rparr>) + 1
   \<and> cause_of_death (handle_vital_stats (sample_herbivore\<lparr>hunger := 100, age := 49\<rparr>))
       = Some ''Old Age''"
  using death_check_priority_and_terminal[of "die sample_herbivore ''Predation''" "''Starvation''"]
    death_check_priority_and_terminal[of "sample_herbivore\<lparr>hunger := 100\<rparr>" "''Starvation''"]
    death_check_priority_and_terminal[of "sample_herbivore\<lparr>hunger := 100, age := 49\<rparr>"
      "''Starvation''"]
  by (simp add: sample_herbivore_eq die_def)

section \<open>Drinking\<close>

text \<open>
  C4, amended: for every live animal at \<open>(row, col)\<close>, the drinking step lowers the thirst
  by 50, floored at 0, exactly when one of the four orthogonal neighbours
  \<open>(row - 1, col)\<close>, \<open>(row + 1, col)\<close>, \<open>(row, col - 1)\<close>, \<open>(row, col + 1)\<close> lies inside the
  grid and is water; otherwise the thirst is unchanged. \<open>handle_drinking\<close> calls
  \<open>_is_adjacent_to_water\<close>, which looks at these four cells, not the eight-cell
  \<open>is_adjacent_to_water\<close>.
\<close>

theorem drinking_reads_orthogonal_neighbours:
  assumes "valid_ref e ref" and "\<not> is_dead (get_animal e ref)"
  shows "thirst (get_animal (handle_drinking e ref) ref) =
     (let a = get_animal e ref; r = row a; c = col a
      in if (in_bounds e (r - 1) c \<and> is_water e (r - 1, c))
            \<or> (in_bounds e (r + 1) c \<and> is_water e (r + 1, c))
            \<or> (in_bounds e r (c - 1) \<and> is_water e (r, c - 1))
            \<or> (in_bounds e r (c + 1) \<and> is_water e (r, c + 1))
         then max (thirst a - 50) 0
         else thirst a)"
  using assms
  by (simp add: handle_drinking_def Let_def private_is_adjacent_to_water_def
      orthogonal_offsets_def get_set_animal)

text \<open>
  C4, as stated, fails: with water only at the diagonal neighbour \<open>(0, 0)\<close> of a live
  herbivore at \<open>(1, 1)\<close>, the drinking step leaves the thirst at 60.
\<close>

theorem diagonal_water_is_not_drunk:
  "\<not> is_dead (get_animal diagonal_water_world (HerbivoreAt 0))
   \<and> row (get_animal diagonal_water_world (HerbivoreAt 0)) = 1
   \<and> col (get_animal diagonal_water_world (HerbivoreAt 0)) = 1
   \<and> in_bounds diagonal_water_world 0 0
   \<and> is_water diagonal_water_world (0, 0)
   \<and> thirst (get_animal diagonal_water_world (HerbivoreAt 0)) = 60
   \<and> thirst (get_animal (handle_drinking diagonal_water_world (HerbivoreAt 0)) (HerbivoreAt 0)) = 60"
  by (simp add: diagonal_water_world_def sample_herbivore_eq handle_drinking_def Let_def
      private_is_adjacent_to_water_def orthogonal_offsets_def set_cell_def blank_ecosystem_def
      in_bounds_def is_water_def new_terrain_def)

theorem drinking_reads_orthogonal_neighbours_witness:
  "valid_ref orthogonal_water_world (HerbivoreAt 0)
   \<and> \<not> is_dead (get_animal orthogonal_water_world (HerbivoreAt 0))
   \<and> thirst (get_animal orthogonal_water_world (HerbivoreAt 0)) = 60
   \<and> thirst (get_animal (handle_drinking orthogonal_water_world (HerbivoreAt 0)) (HerbivoreAt 0)) = 10"
proof -
  have v: "valid_ref orthogonal_water_world (HerbivoreAt 0)"
    by (simp add: valid_ref_def orthogonal_water_world_def)
  have l: "\<not> is_dead (get_animal orthogonal_water_world (HerbivoreAt 0))"
    by (simp add: orthogonal_water_world_def sample_herbivore_eq)
  show ?thesis
    using v l drinking_reads_orthogonal_neighbours[OF v l]
    by (simp add: orthogonal_water_world_def sample_herbivore_eq Let_def set_cell_def
        blank_ecosystem_def in_bounds_def is_water_def new_terrain_def)
qed

section \<open>Decay and removal\<close>

text \<open>
  C1: a dead animal is to stay in its roster while its decay goes down by 5 per tick,
  and to leave it when the decay reaches 0. Run on a herbivore and a predator that
  starve in this tick: each dies in \<open>handle_vital_stats\<close> with its decay still at 100, and
  each has left its roster when its pass ends.
\<close>

theorem newly_dead_animals_leave_the_roster_at_once:
  "herbivores starving_world = [sample_herbivore\<lparr>hunger := 90\<rparr>]
   \<and> \<not> is_dead (sample_herbivore\<lparr>hunger := 90\<rparr>)
   \<and> is_dead (handle_vital_stats (sample_herbivore\<lparr>hunger := 90\<rparr>))
   \<and> decay (handle_vital_stats (sample_herbivore\<lparr>hunger := 90\<rparr>)) = 100
   \<and> herbivores (update_herbivores starving_world) = []
   \<and> predators starving_world = [sample_predator\<lparr>hunger := 90\<rparr>]
   \<and> \<not> is_dead (sample_predator\<lparr>hunger := 90\<rparr>)
   \<and> is_dead (handle_vital_stats (sample_predator\<lparr>hunger := 90\<rparr>))
   \<and> decay (handle_vital_stats (sample_predator\<lparr>hunger := 90\<rparr>)) = 100
   \<and> predators (update_predators starving_world) = []"
  by (simp add: starving_world_def sample_herbivore_eq sample_predator_eq update_herbivores_def
      update_predators_def herbivore_step_def predator_step_def handle_decay_def
      handle_vital_stats_def regenerate_energy_def check_death_conditions_def die_def
      increase_thirst_def increase_hunger_def age_animal_def Let_def blank_ecosystem_def)

section \<open>Energy bounds\<close>

text \<open>
  C2: energy is to stay within 0 and 100. A fresh herbivore on vegetation has energy
  130 after the feeding step of its first tick; a predator that hunts with 15 units of
  energy left has energy -5 afterwards.
\<close>

theorem energy_leaves_its_range:
  "energy (get_animal pasture_world (HerbivoreAt 0)) = 100
   \<and> energy (get_animal
        (handle_feeding
           (set_animal pasture_world (HerbivoreAt 0)
              (handle_vital_stats (get_animal pasture_world (HerbivoreAt 0))))
           (HerbivoreAt 0))
        (HerbivoreAt 0)) = 130
   \<and> energy (get_animal pasture_world (PredatorAt 0)) = 15
   \<and> energy (get_animal (hunt pasture_world (PredatorAt 0) 0) (PredatorAt 0)) = - 5"
  by (simp add: pasture_world_def sample_herbivore_eq sample_predator_eq handle_feeding_def
      feed_herbivore_def feed_def increase_colon_fill_def plant_initial_nutrition_def hunt_def
      handle_vital_stats_def regenerate_energy_def check_death_conditions_def die_def
      increase_thirst_def increase_hunger_def age_animal_def Let_def blank_ecosystem_def
      set_cell_def new_terrain_def random_random_def rng_next_zero)

section \<open>Which fields an operation writes\<close>

lemma set_animal_fields [simp]:
  "rows (set_animal e ref a) = rows e"
  "cols (set_animal e ref a) = cols e"
  "grid (set_animal e ref a) = grid e"
  "plants (set_animal e ref a) = plants e"
  "random_state (set_animal e ref a) = random_state e"
  "animals_on_tile (set_animal e ref a) = animals_on_tile e"
  "ambient_temperature (set_animal e ref a) = ambient_temperature e"
  by (cases ref; simp)+

lemma set_animal_herbivore_at [simp]:
  "predators (set_animal e (HerbivoreAt i) a) = predators e"
  "herbivores (set_animal e (HerbivoreAt i) a) = (herbivores e)[i := a]"
  by simp_all

lemma set_animal_predator_at [simp]:
  "herbivores (set_animal e (PredatorAt i) a) = herbivores e"
  "predators (set_animal e (PredatorAt i) a) = (predators e)[i := a]"
  by simp_all

lemma set_cell_fields [simp]:
  "herbivores (set_cell e p t) = herbivores e"
  "predators (set_cell e p t) = predators e"
  "plants (set_cell e p t) = plants e"
  "random_state (set_cell e p t) = random_state e"
  "animals_on_tile (set_cell e p t) = animals_on_tile e"
  "ambient_temperature (set_cell e p t) = ambient_temperature e"
  "get_animal (set_cell e p t) ref = get_animal e ref"
  by (cases ref; simp add: set_cell_def)+

lemmas set_cell_simps [simp] = set_cell_dims

section \<open>The herbivore pass leaves the predators alone\<close>

lemma herbivore_ops_predators [simp]:
  "predators (fst (handle_decay e (HerbivoreAt i) rem)) = predators e"
  "predators (handle_feeding e (HerbivoreAt i)) = predators e"
  "predators (handle_drinking e (HerbivoreAt i)) = predators e"
  "predators (handle_movement e (HerbivoreAt i)) = predators e"
  "predators (fst (handle_reproduction e (HerbivoreAt i) new)) = predators e"
  "predators (defecate e (HerbivoreAt i)) = predators e"
  "predators (urinate e (HerbivoreAt i)) = predators e"
  by (simp_all add: handle_decay_def handle_feeding_def feed_herbivore_def handle_drinking_def
      handle_movement_def animal_move_def handle_reproduction_def defecate_def urinate_def Let_def)

lemma herbivore_step_predators: "predators (fst (herbivore_step i s)) = predators (fst s)"
  by (simp add: herbivore_step_def Let_def)

lemma fold_herbivore_step_predators:
  "predators (fst (fold herbivore_step is s)) = predators (fst s)"
  by (induction "is" arbitrary: s) (simp_all add: herbivore_step_predators)

lemma update_herbivores_predators: "predators (update_herbivores e) = predators e"
  by (simp add: update_herbivores_def Let_def fold_herbivore_step_predators)

section \<open>Operations on the terrain leave the animals alone\<close>

lemma same_animals_refl [simp]: "same_animals e e"
  by (simp add: same_animals_def)

lemma same_animals_trans: "same_animals e e1 \<Longrightarrow> same_animals e1 e2 \<Longrightarrow> same_animals e e2"
  by (simp add: same_animals_def)

lemma same_animals_fold:
  assumes "\<And>x e1. same_animals e1 (f x e1)"
  shows "same_animals e (fold f xs e)"
proof -
  have "same_animals e0 e \<Longrightarrow> same_animals e0 (fold f xs e)" for e0
  proof (induction xs arbitrary: e)
    case Nil
    then show ?case by simp
  next
    case (Cons x xs)
    from Cons.prems assms[of e x] have "same_animals e0 (f x e)"
      by (rule same_animals_trans)
    then show ?case using Cons.IH by simp
  qed
  then show ?thesis by simp
qed

lemma same_animals_set_cell [simp]: "same_animals e (set_cell e p t)"
  by (simp add: same_animals_def)

lemma same_animals_flood_visit: "same_animals (fst s) (fst (flood_visit p d s))"
  by (simp add: flood_visit_def Let_def)

lemma same_animals_fold_flood_visit:
  "same_animals (fst s) (fst (fold (flood_visit p) ds s))"
proof (induction ds arbitrary: s)
  case Nil
  then show ?case by simp
next
  case (Cons d ds)
  show ?case
    using same_animals_trans[OF same_animals_flood_visit[of s p d] Cons.IH[of "flood_visit p d s"]]
    by simp
qed

lemma same_animals_flood_pop: "same_animals e (fst (flood_pop e p amt stack))"
  unfolding flood_pop_def
  by (rule same_animals_trans[OF _ same_animals_fold_flood_visit[of "(_, stack)", simplified]])
     simp

lemma same_animals_flood_fill_loop: "same_animals e (flood_fill_loop e stack amt)"
proof (induction e stack amt rule: flood_fill_loop.induct)
  case (1 e amt)
  then show ?case by simp
next
  case (2 e p stack amt)
  show ?case
    using same_animals_trans[OF same_animals_flood_pop[of e p amt stack] "2.IH"] by simp
qed

lemma same_animals_flood_cell: "same_animals e (flood_cell p e)"
  by (simp add: flood_cell_def flood_fill_def same_animals_flood_fill_loop
      del: flood_fill_loop.simps)

lemma same_animals_adjust_neighbor: "same_animals e (adjust_neighbor src tgt e)"
  by (simp add: adjust_neighbor_def Let_def same_animals_def)

lemma same_animals_adjust_cell: "same_animals e (adjust_cell p e)"
  by (simp add: adjust_cell_def same_animals_fold same_animals_adjust_neighbor)

lemma same_animals_adjust_water_volume: "same_animals e (adjust_water_volume e)"
  by (simp add: adjust_water_volume_def same_animals_fold same_animals_adjust_cell)

lemma same_animals_precipitate: "same_animals e (precipitate e)"
proof -
  let ?e1 = "e\<lparr>random_state := snd (rng_next (random_state e))\<rparr>"
  have a: "same_animals e ?e1" by (simp add: same_animals_def)
  have b: "same_animals ?e1 (fold flood_cell (all_cells ?e1) ?e1)"
    by (rule same_animals_fold) (rule same_animals_flood_cell)
  have c: "same_animals ?e1 (adjust_water_volume (fold flood_cell (all_cells ?e1) ?e1))"
    by (rule same_animals_trans[OF b same_animals_adjust_water_volume])
  show ?thesis
    using a same_animals_trans[OF a c] by (simp add: precipitate_def Let_def)
qed

lemma same_animals_adjust_temperature: "same_animals e (adjust_temperature e)"
  by (simp add: adjust_temperature_def same_animals_def)

lemma same_animals_heat_cell: "same_animals e (heat_cell p e)"
  by (simp add: heat_cell_def)

lemma same_animals_handle_extreme_heat: "same_animals e (handle_extreme_heat e)"
  by (simp add: handle_extreme_heat_def same_animals_fold same_animals_heat_cell)

lemma same_animals_grow_cell: "same_animals e (grow_cell p e)"
  by (simp add: grow_cell_def Let_def same_animals_def)

lemma same_animals_grow_plants: "same_animals e (grow_plants e)"
  by (simp add: grow_plants_def same_animals_fold same_animals_grow_cell)

lemma same_animals_update_plants: "same_animals e (update_plants e)"
  by (simp add: update_plants_def same_animals_def)

lemma same_animals_update_population_data: "same_animals e (update_population_data e)"
  by (simp add: update_population_data_def same_animals_def)

lemma same_core_refl [simp]: "same_core a a"
  by (simp add: same_core_def)

lemma same_core_trans: "same_core a b \<Longrightarrow> same_core b c \<Longrightarrow> same_core a c"
  by (simp add: same_core_def)

lemma list_all2_map_right: "list_all2 R xs (map f xs) = (\<forall>x\<in>set xs. R x (f x))"
  by (simp add: list_all2_map2 list_all2_same)

lemma update_season_cycle_animals:
  "herbivores (update_season_cycle e) = herbivores e"
  "list_all2 same_core (predators e) (predators (update_season_cycle e))"
  "rows (update_season_cycle e) = rows e" "cols (update_season_cycle e) = cols e"
  "animals_on_tile (update_season_cycle e) = animals_on_tile e"
  "grid (update_season_cycle e) = grid e"
  "random_state (update_season_cycle e) = random_state e"
  by (simp_all add: update_season_cycle_def change_season_def apply_seasonal_effects_def Let_def
      list_all2_map_right same_core_def core_def list_all2_same)

lemma update_environment_animals:
  "herbivores (update_environment e) = herbivores e"
  "list_all2 same_core (predators e) (predators (update_environment e))"
  "rows (update_environment e) = rows e" "cols (update_environment e) = cols e"
  "animals_on_tile (update_environment e) = animals_on_tile e"
proof -
  let ?e3 = "handle_extreme_heat (precipitate (adjust_temperature e))"
  have "same_animals e (precipitate (adjust_temperature e))"
    by (rule same_animals_trans[OF same_animals_adjust_temperature same_animals_precipitate])
  then have "same_animals e ?e3"
    by (rule same_animals_trans[OF _ same_animals_handle_extreme_heat])
  then show "herbivores (update_environment e) = herbivores e"
    "list_all2 same_core (predators e) (predators (update_environment e))"
    "rows (update_environment e) = rows e" "cols (update_environment e) = cols e"
    "animals_on_tile (update_environment e) = animals_on_tile e"
    using update_season_cycle_animals[of ?e3]
    by (simp_all add: update_environment_def same_animals_def)
qed

section \<open>What a pass does to one animal\<close>

lemma keeps_refl [simp]: "keeps a a"
  by (simp add: keeps_def)

lemma keeps_trans: "keeps a b \<Longrightarrow> keeps b c \<Longrightarrow> keeps a c"
  by (auto simp add: keeps_def)

lemma keeps_alive_refl [simp]: "keeps_alive a a"
  by (simp add: keeps_alive_def)

lemma keeps_alive_trans: "keeps_alive a b \<Longrightarrow> keeps_alive b c \<Longrightarrow> keeps_alive a c"
  by (auto simp add: keeps_alive_def intro: keeps_trans)

lemma same_core_keeps: "same_core a a' \<Longrightarrow> keeps_alive a a'"
proof -
  assume "same_core a a'"
  then have c: "core a' = core a" by (simp add: same_core_def)
  have "animal_id a' = animal_id (core a')" "fertility a' = fertility (core a')"
    "is_pregnant a' = is_pregnant (core a')" "is_dead a' = is_dead (core a')"
    by (simp_all add: core_def)
  then show ?thesis
    unfolding c by (simp add: keeps_alive_def keeps_def core_def)
qed

lemma at_index_refl: "R (xs ! i) (xs ! i) \<Longrightarrow> at_index R i xs xs"
  by (simp add: at_index_def)

lemma at_index_trans:
  assumes "\<And>a b c. R a b \<Longrightarrow> R b c \<Longrightarrow> R a c"
    and "at_index R i xs ys" and "at_index R i ys zs"
  shows "at_index R i xs zs"
  using assms(2,3) assms(1)[of "xs ! i" "ys ! i" "zs ! i"] by (simp add: at_index_def)

lemma at_index_weaken:
  "(\<And>a b. R a b \<Longrightarrow> S a b) \<Longrightarrow> at_index R i xs ys \<Longrightarrow> at_index S i xs ys"
  by (simp add: at_index_def)

lemma at_index_update: "i < length xs \<Longrightarrow> R (xs ! i) a \<Longrightarrow> at_index R i xs (xs[i := a])"
  by (simp add: at_index_def)

lemma list_all2_at_index:
  assumes "\<And>a b c. R a b \<Longrightarrow> R b c \<Longrightarrow> R a c"
    and "list_all2 R xs ys" and "at_index R i ys zs"
  shows "list_all2 R xs zs"
  unfolding list_all2_conv_all_nth
proof (intro conjI allI impI)
  show "length xs = length zs"
    using assms(2,3) by (simp add: at_index_def list_all2_lengthD)
next
  fix k assume "k < length xs"
  then have xy: "R (xs ! k) (ys ! k)"
    using assms(2) by (simp add: list_all2_conv_all_nth)
  show "R (xs ! k) (zs ! k)"
  proof (cases "k = i")
    case True
    then show ?thesis using xy assms(3) assms(1)[of "xs ! i" "ys ! i" "zs ! i"]
      by (simp add: at_index_def)
  next
    case False
    then show ?thesis using xy assms(3) by (simp add: at_index_def)
  qed
qed

section \<open>The predator pass\<close>

lemma set_remove_index_update: "set (remove_index j (xs[j := y])) \<subseteq> set xs"
proof -
  have "set (take j xs) \<subseteq> set xs" "set (drop (Suc j) xs) \<subseteq> set xs"
    by (rule set_take_subset, rule set_drop_subset)
  then show ?thesis by (simp add: remove_index_def)
qed

section \<open>Attributes that the vital statistics leave alone\<close>

lemma die_fields [simp]:
  "animal_id (die a c) = animal_id a" "fertility (die a c) = fertility a"
  "is_pregnant (die a c) = is_pregnant a" "row (die a c) = row a" "col (die a c) = col a"
  "decay (die a c) = decay a" "hunger (die a c) = hunger a" "energy (die a c) = energy a"
  by (simp_all add: die_def)

lemma is_dead_die [simp]: "is_dead (die a c)"
  by (simp add: die_def)

lemma check_death_conditions_fields [simp]:
  "animal_id (check_death_conditions a) = animal_id a"
  "fertility (check_death_conditions a) = fertility a"
  "is_pregnant (check_death_conditions a) = is_pregnant a"
  "row (check_death_conditions a) = row a" "col (check_death_conditions a) = col a"
  "decay (check_death_conditions a) = decay a"
  "hunger (check_death_conditions a) = hunger a"
  "energy (check_death_conditions a) = energy a"
  by (simp_all add: check_death_conditions_def)

lemma is_dead_check_death_conditions: "is_dead a \<Longrightarrow> is_dead (check_death_conditions a)"
  by (simp add: check_death_conditions_def die_def)

lemma age_animal_fields [simp]:
  "animal_id (age_animal a) = animal_id a" "fertility (age_animal a) = fertility a"
  "is_pregnant (age_animal a) = is_pregnant a" "row (age_animal a) = row a"
  "col (age_animal a) = col a" "decay (age_animal a) = decay a"
  "is_dead (age_animal a) = is_dead a" "hunger (age_animal a) = hunger a"
  "energy (age_animal a) = energy a"
  by (simp_all add: age_animal_def Let_def)

lemma increase_hunger_fields [simp]:
  "animal_id (increase_hunger a) = animal_id a" "fertility (increase_hunger a) = fertility a"
  "is_pregnant (increase_hunger a) = is_pregnant a" "row (increase_hunger a) = row a"
  "col (increase_hunger a) = col a" "decay (increase_hunger a) = decay a"
  "is_dead (increase_hunger a) = is_dead a" "energy (increase_hunger a) = energy a"
  by (simp_all add: increase_hunger_def)

lemma increase_thirst_fields [simp]:
  "animal_id (increase_thirst a) = animal_id a" "fertility (increase_thirst a) = fertility a"
  "is_pregnant (increase_thirst a) = is_pregnant a" "row (increase_thirst a) = row a"
  "col (increase_thirst a) = col a" "decay (increase_thirst a) = decay a"
  "is_dead (increase_thirst a) = is_dead a" "hunger (increase_thirst a) = hunger a"
  "energy (increase_thirst a) = energy a"
  by (simp_all add: increase_thirst_def)

lemma regenerate_energy_fields [simp]:
  "animal_id (regenerate_energy a) = animal_id a" "fertility (regenerate_energy a) = fertility a"
  "is_pregnant (regenerate_energy a) = is_pregnant a" "row (regenerate_energy a) = row a"
  "col (regenerate_energy a) = col a" "decay (regenerate_energy a) = decay a"
  "is_dead (regenerate_energy a) = is_dead a" "hunger (regenerate_energy a) = hunger a"
  by (simp_all add: regenerate_energy_def)

lemma handle_vital_stats_fields [simp]:
  "animal_id (handle_vital_stats a) = animal_id a"
  "fertility (handle_vital_stats a) = fertility a"
  "is_pregnant (handle_vital_stats a) = is_pregnant a"
  "row (handle_vital_stats a) = row a" "col (handle_vital_stats a) = col a"
  "decay (handle_vital_stats a) = decay a"
  by (simp_all add: handle_vital_stats_def)

lemma is_dead_handle_vital_stats: "is_dead a \<Longrightarrow> is_dead (handle_vital_stats a)"
  by (simp add: handle_vital_stats_def is_dead_check_death_conditions)

lemma handle_vital_stats_keeps: "keeps a (handle_vital_stats a)"
  by (simp add: keeps_def is_dead_handle_vital_stats)

lemma undergo_decay_fields [simp]:
  "animal_id (undergo_decay a) = animal_id a" "fertility (undergo_decay a) = fertility a"
  "is_pregnant (undergo_decay a) = is_pregnant a" "row (undergo_decay a) = row a"
  "col (undergo_decay a) = col a" "is_dead (undergo_decay a) = is_dead a"
  by (simp_all add: undergo_decay_def)

lemma feed_fields [simp]:
  "animal_id (feed a n) = animal_id a" "fertility (feed a n) = fertility a"
  "is_pregnant (feed a n) = is_pregnant a" "row (feed a n) = row a"
  "col (feed a n) = col a" "is_dead (feed a n) = is_dead a"
  by (simp_all add: feed_def increase_colon_fill_def)

section \<open>The predator pass\<close>

lemma consume_prey_predators:
  "i < length (predators e) \<Longrightarrow>
   at_index keeps_alive i (predators e) (predators (consume_prey e (PredatorAt i) j))"
  by (simp add: consume_prey_def Let_def at_index_def keeps_alive_def keeps_def)

lemma consume_prey_herbivores:
  "herbivores (consume_prey e (PredatorAt i) j) = remove_index j (herbivores e)"
  by (simp add: consume_prey_def Let_def)

lemma consume_prey_dims [simp]:
  "rows (consume_prey e ref j) = rows e" "cols (consume_prey e ref j) = cols e"
  "grid (consume_prey e ref j) = grid e"
  by (simp_all add: consume_prey_def Let_def)

lemma hunt_predators:
  assumes "i < length (predators e)"
  shows "at_index keeps_alive i (predators e) (predators (hunt e (PredatorAt i) j))"
proof -
  let ?p = "predators e ! i"
  let ?e1 = "set_animal e (PredatorAt i) (?p\<lparr>energy := energy ?p - 20\<rparr>)"
  let ?e2 = "?e1\<lparr>random_state := snd (rng_next (random_state ?e1))\<rparr>"
  let ?e3 = "?e2\<lparr>herbivores := (herbivores ?e2)[j := die (herbivores ?e2 ! j) ''Predation'']\<rparr>"
  have a: "at_index keeps_alive i (predators e) (predators ?e2)"
    using assms by (simp add: at_index_def keeps_alive_def keeps_def)
  have "at_index keeps_alive i (predators ?e3) (predators (consume_prey ?e3 (PredatorAt i) j))"
    by (rule consume_prey_predators) (use assms in simp)
  then have b: "at_index keeps_alive i (predators ?e2) (predators (consume_prey ?e3 (PredatorAt i) j))"
    by simp
  have c: "at_index keeps_alive i (predators e) (predators (consume_prey ?e3 (PredatorAt i) j))"
    by (rule at_index_trans[OF keeps_alive_trans a b])
  show ?thesis
    using a c by (simp add: hunt_def Let_def)
qed

lemma hunt_herbivores: "set (herbivores (hunt e (PredatorAt i) j)) \<subseteq> set (herbivores e)"
  by (simp add: hunt_def Let_def consume_prey_herbivores set_remove_index_update)

lemma hunt_dims [simp]:
  "rows (hunt e ref j) = rows e" "cols (hunt e ref j) = cols e" "grid (hunt e ref j) = grid e"
  by (simp_all add: hunt_def Let_def)

lemma handle_feeding_predator:
  assumes "i < length (predators e)"
  shows "at_index keeps_alive i (predators e) (predators (handle_feeding e (PredatorAt i)))"
    and "set (herbivores (handle_feeding e (PredatorAt i))) \<subseteq> set (herbivores e)"
    and "rows (handle_feeding e (PredatorAt i)) = rows e"
    and "cols (handle_feeding e (PredatorAt i)) = cols e"
    and "grid (handle_feeding e (PredatorAt i)) = grid e"
proof -
  let ?e1 = "e\<lparr>random_state := snd (rng_next (random_state e))\<rparr>"
  have h: "at_index keeps_alive i (predators e) (predators (hunt ?e1 (PredatorAt i) j))" for j
    using hunt_predators[of i ?e1 j] assms by simp
  have r: "at_index keeps_alive i (predators e) (predators e)"
    by (simp add: at_index_refl)
  show "at_index keeps_alive i (predators e) (predators (handle_feeding e (PredatorAt i)))"
    using h r by (simp add: handle_feeding_def feed_predator_def predator_feed_def Let_def)
  have s: "set (herbivores (hunt ?e1 (PredatorAt i) j)) \<subseteq> set (herbivores e)" for j
    using hunt_herbivores[of ?e1 i j] by simp
  show "set (herbivores (handle_feeding e (PredatorAt i))) \<subseteq> set (herbivores e)"
    using s by (simp add: handle_feeding_def feed_predator_def predator_feed_def Let_def)
  show "rows (handle_feeding e (PredatorAt i)) = rows e"
    "cols (handle_feeding e (PredatorAt i)) = cols e"
    "grid (handle_feeding e (PredatorAt i)) = grid e"
    by (simp_all add: handle_feeding_def feed_predator_def predator_feed_def Let_def)
qed

lemma handle_drinking_at_index:
  "i < length (predators e) \<Longrightarrow>
   at_index keeps_alive i (predators e) (predators (handle_drinking e (PredatorAt i)))"
  "i < length (herbivores e) \<Longrightarrow>
   at_index keeps_alive i (herbivores e) (herbivores (handle_drinking e (HerbivoreAt i)))"
  by (simp_all add: handle_drinking_def Let_def at_index_def keeps_alive_def keeps_def)

lemma handle_drinking_dims [simp]:
  "rows (handle_drinking e ref) = rows e" "cols (handle_drinking e ref) = cols e"
  "grid (handle_drinking e ref) = grid e"
  "animals_on_tile (handle_drinking e ref) = animals_on_tile e"
  "random_state (handle_drinking e ref) = random_state e"
  by (simp_all add: handle_drinking_def Let_def)

lemma handle_drinking_other_roster [simp]:
  "herbivores (handle_drinking e (PredatorAt i)) = herbivores e"
  "predators (handle_drinking e (HerbivoreAt i)) = predators e"
  by (simp_all add: handle_drinking_def Let_def)

lemma predator_move_effect:
  assumes "i < length (predators e)"
  shows "at_index keeps_alive i (predators e) (predators (predator_move e (PredatorAt i) vm))"
    and "herbivores (predator_move e (PredatorAt i) vm) = herbivores e"
    and "rows (predator_move e (PredatorAt i) vm) = rows e"
    and "cols (predator_move e (PredatorAt i) vm) = cols e"
    and "grid (predator_move e (PredatorAt i) vm) = grid e"
  using assms
  by (simp_all add: predator_move_def Let_def at_index_def keeps_alive_def keeps_def)

lemma predator_step_effect:
  assumes "i < length (predators (fst s))"
  shows "at_index keeps i (predators (fst s)) (predators (fst (predator_step i s)))"
    and "set (herbivores (fst (predator_step i s))) \<subseteq> set (herbivores (fst s))"
    and "rows (fst (predator_step i s)) = rows (fst s)"
    and "cols (fst (predator_step i s)) = cols (fst s)"
    and "snd (predator_step i s) = snd s
         \<or> (snd (predator_step i s) = snd s @ [PredatorAt i]
            \<and> \<not> is_dead (predators (fst (predator_step i s)) ! i))"
proof -
  let ?e = "fst s"
  let ?ref = "PredatorAt i"
  let ?e1 = "set_animal ?e ?ref (handle_vital_stats (get_animal ?e ?ref))"
  let ?p = "get_animal ?e1 ?ref"
  let ?vm = "fst (get_valid_moves ?e1 (row ?p) (col ?p))"
  let ?e1' = "?e1\<lparr>random_state := snd (get_valid_moves ?e1 (row ?p) (col ?p))\<rparr>"
  let ?e2 = "predator_move ?e1' ?ref ?vm"
  let ?e3 = "handle_drinking ?e2 ?ref"
  let ?e4 = "handle_feeding ?e3 ?ref"
  have len1: "i < length (predators ?e1')" using assms by simp
  have a1: "at_index keeps i (predators ?e) (predators ?e1')"
    using assms by (simp add: at_index_def handle_vital_stats_keeps)
  have m: "at_index keeps_alive i (predators ?e1') (predators ?e2)"
    and mh: "herbivores ?e2 = herbivores ?e1'"
    and mr: "rows ?e2 = rows ?e1'" and mc: "cols ?e2 = cols ?e1'"
    using predator_move_effect[OF len1, of ?vm] by simp_all
  have len2: "i < length (predators ?e2)" using m len1 by (simp add: at_index_def)
  have d: "at_index keeps_alive i (predators ?e2) (predators ?e3)"
    by (rule handle_drinking_at_index(1)[OF len2])
  have len3: "i < length (predators ?e3)" using d len2 by (simp add: at_index_def)
  have f: "at_index keeps_alive i (predators ?e3) (predators ?e4)"
    and fh: "set (herbivores ?e4) \<subseteq> set (herbivores ?e3)"
    and fr: "rows ?e4 = rows ?e3" and fc: "cols ?e4 = cols ?e3"
    using handle_feeding_predator[OF len3] by simp_all
  have alive14: "at_index keeps_alive i (predators ?e1') (predators ?e4)"
    by (rule at_index_trans[OF keeps_alive_trans at_index_trans[OF keeps_alive_trans m d] f])
  have a4: "at_index keeps i (predators ?e) (predators ?e4)"
  proof (rule at_index_trans[OF keeps_trans a1])
    show "at_index keeps i (predators ?e1') (predators ?e4)"
      using alive14 by (simp add: at_index_def keeps_alive_def)
  qed
  have dead4: "is_dead (predators ?e4 ! i) = is_dead (get_animal ?e1 ?ref)"
    using alive14 by (simp add: at_index_def keeps_alive_def)
  have h4: "set (herbivores ?e4) \<subseteq> set (herbivores ?e)"
    using fh mh by simp
  have step: "predator_step i s =
      (if \<not> is_dead (get_animal ?e1 ?ref) then (?e4, snd s @ [?ref]) else (?e1, snd s))"
    by (simp add: predator_step_def Let_def)
  have a1': "at_index keeps i (predators ?e) (predators ?e1)"
    using a1 by simp
  show "at_index keeps i (predators (fst s)) (predators (fst (predator_step i s)))"
    using a4 a1' by (simp add: step)
  show "set (herbivores (fst (predator_step i s))) \<subseteq> set (herbivores (fst s))"
    using h4 by (simp add: step)
  show "rows (fst (predator_step i s)) = rows (fst s)"
    using fr mr by (simp add: step)
  show "cols (fst (predator_step i s)) = cols (fst s)"
    using fc mc by (simp add: step)
  show "snd (predator_step i s) = snd s
         \<or> (snd (predator_step i s) = snd s @ [PredatorAt i]
            \<and> \<not> is_dead (predators (fst (predator_step i s)) ! i))"
    using dead4 by (simp add: step)
qed

lemma predator_pass_inv_step:
  assumes inv: "predator_pass_inv e k s" and k: "k < length (predators e)"
  shows "predator_pass_inv e (Suc k) (predator_step k s)"
proof -
  let ?s' = "predator_step k s"
  have base: "list_all2 keeps (predators e) (predators (fst s))"
    using inv by (simp add: predator_pass_inv_def)
  then have len: "length (predators (fst s)) = length (predators e)"
    by (simp add: list_all2_lengthD)
  then have k': "k < length (predators (fst s))" using k by simp
  note eff = predator_step_effect[OF k']
  have l2: "list_all2 keeps (predators e) (predators (fst ?s'))"
    by (rule list_all2_at_index[of keeps, OF keeps_trans base eff(1)])
  have old: "\<exists>j<Suc k. ref = PredatorAt j \<and> \<not> is_dead (predators (fst ?s') ! j)"
    if "ref \<in> set (snd s)" for ref
  proof -
    from inv that obtain j where j: "j < k" "ref = PredatorAt j"
      "\<not> is_dead (predators (fst s) ! j)"
      by (auto simp add: predator_pass_inv_def)
    have "predators (fst ?s') ! j = predators (fst s) ! j"
      using eff(1) j(1) by (simp add: at_index_def)
    then show ?thesis using j by auto
  qed
  have refs: "\<forall>ref\<in>set (snd ?s'). \<exists>j<Suc k. ref = PredatorAt j
                \<and> \<not> is_dead (predators (fst ?s') ! j)"
    using eff(5) old by auto
  have cnt: "length (snd ?s') \<le> Suc k"
    using eff(5) inv by (auto simp add: predator_pass_inv_def)
  show ?thesis
    unfolding predator_pass_inv_def
    using l2 refs cnt eff(2,3,4) inv by (auto simp add: predator_pass_inv_def)
qed

lemma predator_pass_inv_fold:
  "k \<le> length (predators e) \<Longrightarrow> predator_pass_inv e k (fold predator_step [0..<k] (e, []))"
proof (induction k)
  case 0
  show ?case by (simp add: predator_pass_inv_def list_all2_refl)
next
  case (Suc k)
  then have "predator_pass_inv e k (fold predator_step [0..<k] (e, []))" by simp
  then have "predator_pass_inv e (Suc k) (predator_step k (fold predator_step [0..<k] (e, [])))"
    by (rule predator_pass_inv_step) (use Suc.prems in simp)
  then show ?case by simp
qed

lemma update_predators_effect:
  shows "length (predators (update_predators e)) \<le> length (predators e)"
    and "\<forall>p\<in>set (predators (update_predators e)). \<not> is_dead p"
    and "descends keeps (predators e) (predators (update_predators e))"
    and "set (herbivores (update_predators e)) \<subseteq> set (herbivores e)"
    and "rows (update_predators e) = rows e" and "cols (update_predators e) = cols e"
proof -
  let ?n = "length (predators e)"
  let ?s = "fold predator_step [0..<?n] (e, [])"
  have inv: "predator_pass_inv e ?n ?s"
    by (rule predator_pass_inv_fold) simp
  have upd: "update_predators e = (fst ?s)\<lparr>predators := map (get_animal (fst ?s)) (snd ?s)\<rparr>"
    by (simp add: update_predators_def Let_def)
  have l2: "list_all2 keeps (predators e) (predators (fst ?s))"
    using inv by (simp add: predator_pass_inv_def)
  show "length (predators (update_predators e)) \<le> length (predators e)"
    using inv by (simp add: upd predator_pass_inv_def)
  show "\<forall>p\<in>set (predators (update_predators e)). \<not> is_dead p"
    using inv by (auto simp add: upd predator_pass_inv_def)
  show "descends keeps (predators e) (predators (update_predators e))"
    unfolding descends_def
  proof
    fix y assume "y \<in> set (predators (update_predators e))"
    then obtain ref where ref: "ref \<in> set (snd ?s)" "y = get_animal (fst ?s) ref"
      by (auto simp add: upd)
    with inv obtain j where j: "j < ?n" "ref = PredatorAt j"
      by (auto simp add: predator_pass_inv_def)
    have "keeps (predators e ! j) (predators (fst ?s) ! j)"
      using l2 j(1) by (simp add: list_all2_conv_all_nth)
    then show "\<exists>x\<in>set (predators e). keeps x y"
      using j ref(2) by (auto intro!: bexI[of _ "predators e ! j"])
  qed
  show "set (herbivores (update_predators e)) \<subseteq> set (herbivores e)"
    using inv by (simp add: upd predator_pass_inv_def)
  show "rows (update_predators e) = rows e" "cols (update_predators e) = cols e"
    using inv by (simp_all add: upd predator_pass_inv_def)
qed

section \<open>The herbivore pass\<close>

lemma herbivore_reproduce_keeps: "keeps a (herbivore_reproduce a other)"
  by (simp add: keeps_def herbivore_reproduce_def herbivore_can_reproduce_def can_reproduce_def)

lemma reproduction_fold_keeps:
  "keeps a (fold (\<lambda>other a. if can_reproduce_together a other
                             then reproduce (HerbivoreAt i) a other else a) others a)"
proof (induction others arbitrary: a)
  case Nil
  show ?case by simp
next
  case (Cons other others)
  let ?a1 = "if can_reproduce_together a other then reproduce (HerbivoreAt i) a other else a"
  have "keeps a ?a1"
    by (simp add: reproduce_def herbivore_reproduce_keeps)
  from keeps_trans[OF this Cons.IH[of ?a1]] show ?case by simp
qed

lemma herbivore_ops_at_index:
  assumes "i < length (herbivores e)"
  shows "at_index keeps i (herbivores e) (herbivores (fst (handle_decay e (HerbivoreAt i) rem)))"
    and "at_index keeps i (herbivores e)
           (herbivores (set_animal e (HerbivoreAt i) (handle_vital_stats (herbivores e ! i))))"
    and "at_index keeps i (herbivores e) (herbivores (handle_feeding e (HerbivoreAt i)))"
    and "at_index keeps i (herbivores e) (herbivores (handle_drinking e (HerbivoreAt i)))"
    and "at_index keeps i (herbivores e) (herbivores (handle_movement e (HerbivoreAt i)))"
    and "at_index keeps i (herbivores e)
           (herbivores (fst (handle_reproduction e (HerbivoreAt i) new)))"
    and "at_index keeps i (herbivores e) (herbivores (defecate e (HerbivoreAt i)))"
    and "at_index keeps i (herbivores e) (herbivores (urinate e (HerbivoreAt i)))"
proof -
  show "at_index keeps i (herbivores e) (herbivores (fst (handle_decay e (HerbivoreAt i) rem)))"
    using assms by (simp add: handle_decay_def Let_def at_index_def keeps_def)
  show "at_index keeps i (herbivores e)
           (herbivores (set_animal e (HerbivoreAt i) (handle_vital_stats (herbivores e ! i))))"
    using assms by (simp add: at_index_def handle_vital_stats_keeps)
  show "at_index keeps i (herbivores e) (herbivores (handle_feeding e (HerbivoreAt i)))"
    using assms by (simp add: handle_feeding_def feed_herbivore_def Let_def at_index_def keeps_def)
  show "at_index keeps i (herbivores e) (herbivores (handle_drinking e (HerbivoreAt i)))"
    using assms by (simp add: handle_drinking_def Let_def at_index_def keeps_def)
  show "at_index keeps i (herbivores e) (herbivores (handle_movement e (HerbivoreAt i)))"
    using assms
    by (simp add: handle_movement_def animal_move_def Let_def at_index_def keeps_def)
  show "at_index keeps i (herbivores e)
           (herbivores (fst (handle_reproduction e (HerbivoreAt i) new)))"
    using assms by (simp add: handle_reproduction_def at_index_def reproduction_fold_keeps)
  show "at_index keeps i (herbivores e) (herbivores (defecate e (HerbivoreAt i)))"
    using assms by (simp add: defecate_def Let_def at_index_def keeps_def)
  show "at_index keeps i (herbivores e) (herbivores (urinate e (HerbivoreAt i)))"
    using assms by (simp add: urinate_def Let_def at_index_def keeps_def)
qed

lemma herbivore_ops_dims [simp]:
  "rows (fst (handle_decay e ref rem)) = rows e" "cols (fst (handle_decay e ref rem)) = cols e"
  "rows (handle_feeding e (HerbivoreAt i)) = rows e"
  "cols (handle_feeding e (HerbivoreAt i)) = cols e"
  "rows (handle_movement e ref) = rows e" "cols (handle_movement e ref) = cols e"
  "rows (fst (handle_reproduction e ref new)) = rows e"
  "cols (fst (handle_reproduction e ref new)) = cols e"
  "rows (defecate e ref) = rows e" "cols (defecate e ref) = cols e"
  "rows (urinate e ref) = rows e" "cols (urinate e ref) = cols e"
  by (simp_all add: handle_decay_def handle_feeding_def feed_herbivore_def
      handle_movement_def animal_move_def handle_reproduction_def defecate_def urinate_def Let_def)

lemma handle_reproduction_new [simp]: "snd (handle_reproduction e ref new) = new"
  by (simp add: handle_reproduction_def)

lemma handle_decay_remaining:
  "snd (handle_decay e ref rem) = rem \<or> snd (handle_decay e ref rem) = rem @ [ref]"
  by (simp add: handle_decay_def Let_def)

lemma at_index_keeps_trans:
  assumes "at_index keeps i xs ys" and "at_index keeps i ys zs"
  shows "at_index keeps i xs zs"
  using assms keeps_trans[of "xs ! i" "ys ! i" "zs ! i"] by (simp add: at_index_def)

lemma herbivore_step_effect:
  assumes "i < length (herbivores (fst s))"
  shows "at_index keeps i (herbivores (fst s)) (herbivores (fst (herbivore_step i s)))"
    and "rows (fst (herbivore_step i s)) = rows (fst s)"
    and "cols (fst (herbivore_step i s)) = cols (fst s)"
    and "set (fst (snd (herbivore_step i s))) \<subseteq> set (fst (snd s)) \<union> {HerbivoreAt i}"
    and "snd (snd (herbivore_step i s)) = snd (snd s)"
proof -
  let ?e = "fst s" let ?rem = "fst (snd s)" let ?new = "snd (snd s)"
  let ?ref = "HerbivoreAt i"
  let ?e1 = "fst (handle_decay ?e ?ref ?rem)"
  let ?rem1 = "snd (handle_decay ?e ?ref ?rem)"
  let ?e2 = "set_animal ?e1 ?ref (handle_vital_stats (get_animal ?e1 ?ref))"
  let ?e3 = "handle_feeding ?e2 ?ref"
  let ?e4 = "handle_drinking ?e3 ?ref"
  let ?e5 = "handle_movement ?e4 ?ref"
  let ?e6 = "fst (handle_reproduction ?e5 ?ref ?new)"
  let ?e7 = "defecate ?e6 ?ref"
  let ?e8 = "urinate ?e7 ?ref"
  note tr = at_index_keeps_trans
  have s1: "at_index keeps i (herbivores ?e) (herbivores ?e1)"
    by (rule herbivore_ops_at_index(1)[OF assms])
  then have l1: "i < length (herbivores ?e1)" using assms by (simp add: at_index_def)
  have "at_index keeps i (herbivores ?e1) (herbivores ?e2)"
    using herbivore_ops_at_index(2)[OF l1] by simp
  from tr[OF s1 this] have s2: "at_index keeps i (herbivores ?e) (herbivores ?e2)" .
  then have l2: "i < length (herbivores ?e2)" using assms by (simp add: at_index_def)
  from tr[OF s2 herbivore_ops_at_index(3)[OF l2]]
  have s3: "at_index keeps i (herbivores ?e) (herbivores ?e3)" .
  then have l3: "i < length (herbivores ?e3)" using assms by (simp add: at_index_def)
  from tr[OF s3 herbivore_ops_at_index(4)[OF l3]]
  have s4: "at_index keeps i (herbivores ?e) (herbivores ?e4)" .
  then have l4: "i < length (herbivores ?e4)" using assms by (simp add: at_index_def)
  from tr[OF s4 herbivore_ops_at_index(5)[OF l4]]
  have s5: "at_index keeps i (herbivores ?e) (herbivores ?e5)" .
  then have l5: "i < length (herbivores ?e5)" using assms by (simp add: at_index_def)
  from tr[OF s5 herbivore_ops_at_index(6)[OF l5]]
  have s6: "at_index keeps i (herbivores ?e) (herbivores ?e6)" .
  then have l6: "i < length (herbivores ?e6)" using assms by (simp add: at_index_def)
  from tr[OF s6 herbivore_ops_at_index(7)[OF l6]]
  have s7: "at_index keeps i (herbivores ?e) (herbivores ?e7)" .
  then have l7: "i < length (herbivores ?e7)" using assms by (simp add: at_index_def)
  from tr[OF s7 herbivore_ops_at_index(8)[OF l7]]
  have s8: "at_index keeps i (herbivores ?e) (herbivores ?e8)" .
  have step: "herbivore_step i s =
      (if \<not> is_dead (get_animal ?e2 ?ref) then (?e8, ?rem1 @ [?ref], ?new)
       else (?e2, ?rem1, ?new))"
    by (simp add: herbivore_step_def Let_def)
  show "at_index keeps i (herbivores (fst s)) (herbivores (fst (herbivore_step i s)))"
    using s2 s8 by (simp add: step)
  show "rows (fst (herbivore_step i s)) = rows (fst s)"
    "cols (fst (herbivore_step i s)) = cols (fst s)"
    by (simp_all add: step)
  show "set (fst (snd (herbivore_step i s))) \<subseteq> set (fst (snd s)) \<union> {HerbivoreAt i}"
    using handle_decay_remaining[of ?e ?ref ?rem] by (auto simp add: step)
  show "snd (snd (herbivore_step i s)) = snd (snd s)"
    by (simp add: step)
qed

lemma herbivore_pass_inv_step:
  assumes inv: "herbivore_pass_inv e k s" and k: "k < length (herbivores e)"
  shows "herbivore_pass_inv e (Suc k) (herbivore_step k s)"
proof -
  have base: "list_all2 keeps (herbivores e) (herbivores (fst s))"
    using inv by (simp add: herbivore_pass_inv_def)
  then have "length (herbivores (fst s)) = length (herbivores e)"
    by (simp add: list_all2_lengthD)
  then have k': "k < length (herbivores (fst s))" using k by simp
  note eff = herbivore_step_effect[OF k']
  have l2: "list_all2 keeps (herbivores e) (herbivores (fst (herbivore_step k s)))"
    by (rule list_all2_at_index[of keeps, OF keeps_trans base eff(1)])
  have "set (fst (snd s)) \<subseteq> HerbivoreAt ` {0..<k}"
    using inv by (simp add: herbivore_pass_inv_def)
  moreover have "HerbivoreAt ` {0..<k} \<subseteq> HerbivoreAt ` {0..<Suc k}"
    by auto
  moreover have "HerbivoreAt k \<in> HerbivoreAt ` {0..<Suc k}"
    by simp
  ultimately have refs: "set (fst (snd (herbivore_step k s))) \<subseteq> HerbivoreAt ` {0..<Suc k}"
    using eff(4) by blast
  show ?thesis
    using l2 refs eff(2,3,5) inv by (simp add: herbivore_pass_inv_def)
qed

lemma herbivore_pass_inv_fold:
  "k \<le> length (herbivores e) \<Longrightarrow>
   herbivore_pass_inv e k (fold herbivore_step [0..<k] (e, [], []))"
proof (induction k)
  case 0
  show ?case by (simp add: herbivore_pass_inv_def list_all2_refl)
next
  case (Suc k)
  then have "herbivore_pass_inv e k (fold herbivore_step [0..<k] (e, [], []))" by simp
  then have "herbivore_pass_inv e (Suc k)
               (herbivore_step k (fold herbivore_step [0..<k] (e, [], [])))"
    by (rule herbivore_pass_inv_step) (use Suc.prems in simp)
  then show ?case by simp
qed

lemma update_herbivores_effect:
  shows "descends keeps (herbivores e) (herbivores (update_herbivores e))"
    and "rows (update_herbivores e) = rows e" and "cols (update_herbivores e) = cols e"
proof -
  let ?n = "length (herbivores e)"
  let ?s = "fold herbivore_step [0..<?n] (e, [], [])"
  have inv: "herbivore_pass_inv e ?n ?s"
    by (rule herbivore_pass_inv_fold) simp
  have upd: "update_herbivores e =
      (fst ?s)\<lparr>herbivores := map (get_animal (fst ?s)) (fst (snd ?s)) @ snd (snd ?s)\<rparr>"
    by (simp add: update_herbivores_def Let_def)
  have l2: "list_all2 keeps (herbivores e) (herbivores (fst ?s))"
    using inv by (simp add: herbivore_pass_inv_def)
  have new: "snd (snd ?s) = []" using inv by (simp add: herbivore_pass_inv_def)
  have refs: "set (fst (snd ?s)) \<subseteq> HerbivoreAt ` {0..<?n}"
    using inv by (simp add: herbivore_pass_inv_def)
  show "descends keeps (herbivores e) (herbivores (update_herbivores e))"
    unfolding descends_def
  proof
    fix y assume "y \<in> set (herbivores (update_herbivores e))"
    then obtain ref where ref: "ref \<in> set (fst (snd ?s))" "y = get_animal (fst ?s) ref"
      by (auto simp add: upd new)
    with refs obtain j where j: "j < ?n" "ref = HerbivoreAt j" by auto
    have "keeps (herbivores e ! j) (herbivores (fst ?s) ! j)"
      using l2 j(1) by (simp add: list_all2_conv_all_nth)
    then show "\<exists>x\<in>set (herbivores e). keeps x y"
      using j ref(2) by (auto intro!: bexI[of _ "herbivores e ! j"])
  qed
  show "rows (update_herbivores e) = rows e" "cols (update_herbivores e) = cols e"
    using inv by (simp_all add: upd herbivore_pass_inv_def)
qed

section \<open>A whole tick\<close>

lemma descends_trans:
  assumes "\<And>a b c. R a b \<Longrightarrow> R b c \<Longrightarrow> R a c"
    and "descends R xs ys" and "descends R ys zs"
  shows "descends R xs zs"
  unfolding descends_def
proof
  fix z assume "z \<in> set zs"
  with assms(3) obtain y where y: "y \<in> set ys" "R y z" by (auto simp add: descends_def)
  with assms(2) obtain x where x: "x \<in> set xs" "R x y" by (auto simp add: descends_def)
  from assms(1)[OF x(2) y(2)] x(1) show "\<exists>x\<in>set xs. R x z" by auto
qed

lemma descends_keeps_trans:
  "descends keeps xs ys \<Longrightarrow> descends keeps ys zs \<Longrightarrow> descends keeps xs zs"
  by (rule descends_trans[of keeps]) (auto intro: keeps_trans)

lemma descends_subset: "(\<And>a. R a a) \<Longrightarrow> set ys \<subseteq> set xs \<Longrightarrow> descends R xs ys"
  by (auto simp add: descends_def)

lemma descends_list_all2: "list_all2 R xs ys \<Longrightarrow> descends R xs ys"
  unfolding descends_def
proof
  fix y assume "y \<in> set ys"
  then obtain k where k: "k < length ys" "y = ys ! k" by (auto simp add: in_set_conv_nth)
  assume l: "list_all2 R xs ys"
  then have "length xs = length ys" by (rule list_all2_lengthD)
  with k l have "xs ! k \<in> set xs" "R (xs ! k) y"
    by (simp_all add: list_all2_conv_all_nth)
  then show "\<exists>x\<in>set xs. R x y" by auto
qed

lemma descends_eq: "ys = xs \<Longrightarrow> descends keeps xs ys"
  by (simp add: descends_subset)

lemma drift_same_core: "same_core a (drift_body_temperature t a)"
  by (simp add: same_core_def core_def drift_body_temperature_def)

lemma same_core_imp_keeps: "same_core a b \<Longrightarrow> keeps a b"
  using same_core_keeps[of a b] by (simp add: keeps_alive_def)

lemma list_all2_same_core_keeps: "list_all2 same_core xs ys \<Longrightarrow> list_all2 keeps xs ys"
  by (erule list_all2_mono) (rule same_core_imp_keeps)

lemma list_all2_drift: "list_all2 same_core xs (map (drift_body_temperature t) xs)"
  by (simp add: list_all2_map_right drift_same_core)

lemma body_temperature_pass:
  "list_all2 same_core (herbivores e)
     (herbivores (update_animal_body_temperature_and_plant_nutrition e))"
  "list_all2 same_core (predators e)
     (predators (update_animal_body_temperature_and_plant_nutrition e))"
  by (simp_all add: update_animal_body_temperature_and_plant_nutrition_def list_all2_drift)

lemma list_all2_same_core_dead:
  assumes "list_all2 same_core xs ys" and "list_all (\<lambda>p. \<not> is_dead p) xs"
  shows "list_all (\<lambda>p. \<not> is_dead p) ys"
  unfolding list_all_iff
proof
  fix y assume "y \<in> set ys"
  with descends_list_all2[OF assms(1)] obtain x where x: "x \<in> set xs" "same_core x y"
    by (auto simp add: descends_def)
  from same_core_keeps[OF x(2)] have "is_dead y = is_dead x" by (simp add: keeps_alive_def)
  with assms(2) x(1) show "\<not> is_dead y" by (simp add: list_all_iff)
qed

lemma update_unfold:
  "update e =
     (update_population_data
        (update_animal_body_temperature_and_plant_nutrition (after_plants e)))
       \<lparr>cycle := cycle (update_population_data
          (update_animal_body_temperature_and_plant_nutrition (after_plants e))) + 1\<rparr>"
  by (simp add: update_def Let_def after_plants_def after_predators_def after_herbivores_def)

lemma after_plants_animals:
  "herbivores (after_plants e) = herbivores (after_predators e)"
  "predators (after_plants e) = predators (after_predators e)"
  using same_animals_trans[OF same_animals_grow_plants same_animals_update_plants,
      of "after_predators e"]
  by (simp_all add: after_plants_def same_animals_def)

lemma update_rosters:
  "list_all2 same_core (herbivores (after_predators e)) (herbivores (update e))"
  "list_all2 same_core (predators (after_predators e)) (predators (update e))"
  using body_temperature_pass[of "after_plants e"]
  by (simp_all add: update_unfold update_population_data_def after_plants_animals)

lemma after_predators_predators:
  "length (predators (after_predators e)) \<le> length (predators e)"
  "list_all (\<lambda>p. \<not> is_dead p) (predators (after_predators e))"
  "descends keeps (predators e) (predators (after_predators e))"
proof -
  let ?e1 = "update_environment e"
  let ?e2 = "after_herbivores e"
  have p2: "predators ?e2 = predators ?e1"
    by (simp add: after_herbivores_def update_herbivores_predators)
  have l1: "list_all2 same_core (predators e) (predators ?e1)"
    by (rule update_environment_animals(2))
  show "length (predators (after_predators e)) \<le> length (predators e)"
    using update_predators_effect(1)[of ?e2] list_all2_lengthD[OF l1]
    by (simp add: after_predators_def p2)
  show "list_all (\<lambda>p. \<not> is_dead p) (predators (after_predators e))"
    using update_predators_effect(2)[of ?e2] by (simp add: after_predators_def list_all_iff)
  have "descends keeps (predators e) (predators ?e2)"
    using descends_list_all2[OF list_all2_same_core_keeps[OF l1]] by (simp add: p2)
  then show "descends keeps (predators e) (predators (after_predators e))"
    unfolding after_predators_def
    by (rule descends_keeps_trans) (rule update_predators_effect(3))
qed

lemma after_predators_herbivores:
  "descends keeps (herbivores e) (herbivores (after_predators e))"
proof -
  have "descends keeps (herbivores e) (herbivores (after_herbivores e))"
    using update_herbivores_effect(1)[of "update_environment e"]
    by (simp add: after_herbivores_def update_environment_animals(1))
  moreover have "descends keeps (herbivores (after_herbivores e))
      (herbivores (after_predators e))"
    unfolding after_predators_def
    by (rule descends_subset) (simp_all add: update_predators_effect(4))
  ultimately show ?thesis by (rule descends_keeps_trans)
qed

lemma update_descends:
  "descends keeps (herbivores e) (herbivores (update e))"
  "descends keeps (predators e) (predators (update e))"
proof -
  show "descends keeps (herbivores e) (herbivores (update e))"
    by (rule descends_keeps_trans[OF after_predators_herbivores
          descends_list_all2[OF list_all2_same_core_keeps[OF update_rosters(1)]]])
  show "descends keeps (predators e) (predators (update e))"
    by (rule descends_keeps_trans[OF after_predators_predators(3)
          descends_list_all2[OF list_all2_same_core_keeps[OF update_rosters(2)]]])
qed

lemma descends_keeps_ids:
  assumes "descends keeps xs ys"
  shows "(\<lambda>a. (animal_id a, fertility a)) ` set ys \<subseteq> (\<lambda>a. (animal_id a, fertility a)) ` set xs"
proof
  fix k assume "k \<in> (\<lambda>a. (animal_id a, fertility a)) ` set ys"
  then obtain y where y: "y \<in> set ys" "k = (animal_id y, fertility y)" by auto
  with assms obtain x where "x \<in> set xs" "keeps x y" by (auto simp add: descends_def)
  then show "k \<in> (\<lambda>a. (animal_id a, fertility a)) ` set xs"
    using y(2) by (auto simp add: keeps_def image_iff intro!: bexI[of _ x])
qed






section \<open>The predator roster\<close>

text \<open>
  C10: the predator roster never grows. After every tick it is no longer than before,
  every identifier in it was in it before (no predator is added: the predator pass calls
  neither \<open>handle_reproduction\<close> nor \<open>add_animal\<close>), and every predator in it is alive
  (the pass keeps exactly the predators that survive \<open>handle_vital_stats\<close>). The last
  conjunct is the same bound between any two consecutive ticks of a run.
\<close>

theorem predator_roster_never_grows:
  "length (predators (update e)) \<le> length (predators e)
   \<and> list_all (\<lambda>p. \<not> is_dead p) (predators (update e))
   \<and> animal_id ` set (predators (update e)) \<subseteq> animal_id ` set (predators e)
   \<and> length (predators ((update ^^ Suc n) e)) \<le> length (predators ((update ^^ n) e))"
proof -
  have len: "length (predators (update e)) \<le> length (predators e)" for e
    using after_predators_predators(1)[of e] list_all2_lengthD[OF update_rosters(2)[of e]]
    by simp
  have alive: "list_all (\<lambda>p. \<not> is_dead p) (predators (update e))"
    by (rule list_all2_same_core_dead[OF update_rosters(2) after_predators_predators(2)])
  have "(\<lambda>a. (animal_id a, fertility a)) ` set (predators (update e))
          \<subseteq> (\<lambda>a. (animal_id a, fertility a)) ` set (predators e)"
    by (rule descends_keeps_ids[OF update_descends(2)])
  then have "fst ` (\<lambda>a. (animal_id a, fertility a)) ` set (predators (update e))
          \<subseteq> fst ` (\<lambda>a. (animal_id a, fertility a)) ` set (predators e)"
    by (rule image_mono)
  then have ids: "animal_id ` set (predators (update e)) \<subseteq> animal_id ` set (predators e)"
    by (simp add: image_image)
  show ?thesis
    using len[of e] len[of "(update ^^ n) e"] alive ids by simp
qed

section \<open>Fertility\<close>






section \<open>Random choices stay inside the list\<close>

lemma randbelow_less: "0 < n \<Longrightarrow> fst (randbelow n g) < n"
  by (simp add: randbelow_def)

lemma random_choice_in: "xs \<noteq> [] \<Longrightarrow> fst (random_choice xs g) \<in> set xs"
  by (simp add: random_choice_def randbelow_less)

lemma shuffle_from_set:
  "i < length xs \<Longrightarrow> set (fst (shuffle_from i xs g)) = set xs
     \<and> length (fst (shuffle_from i xs g)) = length xs"
proof (induction i arbitrary: xs g)
  case 0
  show ?case by simp
next
  case (Suc i)
  let ?j = "fst (randbelow (Suc (Suc i)) g)"
  let ?ys = "xs[Suc i := xs ! ?j, ?j := xs ! Suc i]"
  have j: "?j < length xs"
    using randbelow_less[of "Suc (Suc i)" g] Suc.prems by simp
  have "set ?ys = set xs"
    using set_swap[OF Suc.prems j] by simp
  moreover have "length ?ys = length xs" by simp
  moreover have "i < length ?ys" using Suc.prems by simp
  ultimately show ?case
    using Suc.IH[of ?ys "snd (rng_next g)"] by (simp add: Let_def)
qed

lemma random_shuffle_set: "set (fst (random_shuffle xs g)) = set xs"
proof (cases xs)
  case Nil
  then show ?thesis by (simp add: random_shuffle_def)
next
  case (Cons x xs')
  then have "length xs - 1 < length xs" by simp
  from shuffle_from_set[OF this] show ?thesis by (simp add: random_shuffle_def)
qed

lemma choose_new_location_in:
  "vm \<noteq> [] \<Longrightarrow> fst (choose_new_location a vm nearby g) \<in> set vm"
  by (simp add: choose_new_location_def Let_def random_choice_in arg_min_list_in)

lemma get_valid_moves_set: "set (fst (get_valid_moves e r c)) = set (candidate_moves e r c)"
  by (simp add: get_valid_moves_def random_shuffle_set)

section \<open>Where a herbivore can be after its move\<close>

lemma filter_empty_set_cong:
  "set xs = set ys \<Longrightarrow> (filter P xs = []) = (filter P ys = [])"
  by (simp add: filter_empty_conv)

lemma animal_move_moved:
  assumes i: "i < length (herbivores e)"
    and vm: "set vm = set (candidate_moves e (row (herbivores e ! i)) (col (herbivores e ! i)))"
  shows "moved e (herbivores e ! i) (herbivores (animal_move e (HerbivoreAt i) vm nearby) ! i)"
proof -
  let ?a = "herbivores e ! i"
  let ?P = "\<lambda>m. \<not> is_tile_occupied_by_same_species e m (species ?a)"
  let ?free = "filter ?P vm"
  let ?new = "fst (choose_new_location ?a ?free nearby (random_state e))"
  have set_free: "set ?free = set (free_moves e ?a)"
    using vm by (simp add: free_moves_def)
  have empty: "(?free = []) = (free_moves e ?a = [])"
    unfolding free_moves_def by (rule filter_empty_set_cong[OF vm])
  show ?thesis
  proof (cases "?free \<noteq> [] \<and> 0 < energy ?a \<and> \<not> is_dead ?a")
    case True
    then have ne: "?free \<noteq> []" by simp
    then have vne: "vm \<noteq> []" by auto
    from choose_new_location_in[OF ne] have "?new \<in> set ?free" .
    then have n: "?new \<in> set (free_moves e ?a)" unfolding set_free .
    have "position (herbivores (animal_move e (HerbivoreAt i) vm nearby) ! i) = ?new"
      using True vne i by (simp add: animal_move_def Let_def position_def)
    then show ?thesis using n True empty by (simp add: moved_def)
  next
    case False
    then have "animal_move e (HerbivoreAt i) vm nearby = e"
      by (auto simp add: animal_move_def Let_def)
    then show ?thesis using False empty by (auto simp add: moved_def)
  qed
qed

lemma candidate_moves_random_state [simp]:
  "candidate_moves (e\<lparr>random_state := g\<rparr>) r c = candidate_moves e r c"
  by (simp add: candidate_moves_def passable_def in_bounds_def)

lemma occupied_random_state [simp]:
  "is_tile_occupied_by_same_species (e\<lparr>random_state := g\<rparr>) p sp
     = is_tile_occupied_by_same_species e p sp"
  by (simp add: is_tile_occupied_by_same_species_def)

lemma moved_random_state [simp]: "moved (e\<lparr>random_state := g\<rparr>) a a' = moved e a a'"
  by (simp add: moved_def free_moves_def)

lemma handle_movement_moved:
  assumes "i < length (herbivores e)"
  shows "moved e (herbivores e ! i) (herbivores (handle_movement e (HerbivoreAt i)) ! i)"
proof -
  let ?a = "herbivores e ! i"
  let ?vm = "fst (get_valid_moves e (row ?a) (col ?a))"
  let ?e1 = "e\<lparr>random_state := snd (get_valid_moves e (row ?a) (col ?a))\<rparr>"
  have "set ?vm = set (candidate_moves ?e1 (row (herbivores ?e1 ! i)) (col (herbivores ?e1 ! i)))"
    by (simp add: get_valid_moves_set)
  moreover have "i < length (herbivores ?e1)" using assms by simp
  ultimately have "moved ?e1 (herbivores ?e1 ! i)
      (herbivores (animal_move ?e1 (HerbivoreAt i) ?vm (get_nearby_animals ?e1 (HerbivoreAt i) 5)) ! i)"
    by (rule animal_move_moved[rotated])
  then have m: "moved e ?a
      (herbivores (animal_move ?e1 (HerbivoreAt i) ?vm (get_nearby_animals ?e1 (HerbivoreAt i) 5)) ! i)"
    by simp
  show ?thesis
  proof (cases "is_dead ?a")
    case True
    then show ?thesis by (simp add: handle_movement_def Let_def moved_def)
  next
    case False
    then show ?thesis using m by (simp add: handle_movement_def Let_def)
  qed
qed

lemma handle_movement_alive:
  "i < length (herbivores e) \<Longrightarrow>
   is_dead (herbivores (handle_movement e (HerbivoreAt i)) ! i) = is_dead (herbivores e ! i)"
  "length (herbivores (handle_movement e (HerbivoreAt i))) = length (herbivores e)"
  by (simp_all add: handle_movement_def animal_move_def Let_def)

lemma same_ground_refl [simp]: "same_ground e e"
  by (simp add: same_ground_def)

lemma same_ground_trans: "same_ground e e1 \<Longrightarrow> same_ground e1 e2 \<Longrightarrow> same_ground e e2"
  by (simp add: same_ground_def)

lemma free_moves_cong:
  assumes "same_ground e e'" and "stays a b"
  shows "free_moves e' b = free_moves e a"
proof -
  have "candidate_moves e' r k = candidate_moves e r k" for r k
    using assms(1) by (simp add: candidate_moves_def in_bounds_def same_ground_def)
  moreover have "is_tile_occupied_by_same_species e' p sp
      = is_tile_occupied_by_same_species e p sp" for p sp
    using assms(1) by (simp add: is_tile_occupied_by_same_species_def same_ground_def)
  ultimately show ?thesis
    using assms(2) by (simp add: free_moves_def stays_def)
qed

lemma stays_refl [simp]: "stays a a"
  by (simp add: stays_def)

lemma stays_trans: "stays a b \<Longrightarrow> stays b c \<Longrightarrow> stays a c"
  by (simp add: stays_def)

lemma passable_set_cell_land:
  "passable e p \<Longrightarrow> passable (set_cell e p (new_terrain Land x y)) = passable e"
  by (auto simp add: passable_def fun_eq_iff new_terrain_def)

lemma passable_set_animal [simp]: "passable (set_animal e ref a) = passable e"
  by (simp add: passable_def fun_eq_iff)

lemma passable_marks [simp]:
  "passable (set_cell e p ((grid e p)\<lparr>feces := b\<rparr>)) = passable e"
  "passable (set_cell e p ((grid e p)\<lparr>urine := b\<rparr>)) = passable e"
  by (auto simp add: passable_def fun_eq_iff)

lemma species_fields [simp]:
  "species (handle_vital_stats a) = species a"
  "species (feed a n) = species a"
  by (simp_all add: handle_vital_stats_def regenerate_energy_def check_death_conditions_def
      die_def increase_thirst_def increase_hunger_def age_animal_def Let_def feed_def
      increase_colon_fill_def)

lemma energy_stays_positive:
  "0 < energy a \<Longrightarrow> 0 < energy (handle_vital_stats a)"
  "0 < energy a \<Longrightarrow> 0 \<le> n \<Longrightarrow> 0 < energy (feed a n)"
  by (simp_all add: handle_vital_stats_def regenerate_energy_def feed_def
      increase_colon_fill_def)

lemma feed_herbivore_ground: "same_ground e (feed_herbivore e ref r c)"
proof (cases "terrain_type (grid e (r, c)) = Vegetation")
  case True
  let ?e1 = "set_animal e ref (feed (get_animal e ref) plant_initial_nutrition)"
  have "passable ?e1 (r, c)" using True by (simp add: passable_def)
  from passable_set_cell_land[OF this]
  have "passable (set_cell ?e1 (r, c) (new_terrain Land (elevation (grid ?e1 (r, c))) 0))
          = passable e"
    by simp
  then show ?thesis using True by (simp add: same_ground_def feed_herbivore_def Let_def)
next
  case False
  then show ?thesis by (simp add: feed_herbivore_def)
qed

lemma before_move_ground:
  "same_ground e (set_animal e ref a)"
  "same_ground e (handle_feeding e (HerbivoreAt i))"
  "same_ground e (handle_drinking e ref)"
  by (simp_all add: same_ground_def handle_feeding_def Let_def handle_drinking_def
      feed_herbivore_ground[unfolded same_ground_def])

lemma before_move_stays:
  assumes "i < length (herbivores e)"
  shows "stays (herbivores e ! i) (herbivores (handle_feeding e (HerbivoreAt i)) ! i)"
    and "stays (herbivores e ! i) (herbivores (handle_drinking e (HerbivoreAt i)) ! i)"
  using assms
  by (simp_all add: stays_def handle_feeding_def feed_herbivore_def handle_drinking_def Let_def
      energy_stays_positive plant_initial_nutrition_def)

lemma reproduce_position [simp]:
  "position (herbivore_reproduce a other) = position a"
  by (simp add: herbivore_reproduce_def position_def)

lemma reproduction_fold_position:
  "position (fold (\<lambda>other a. if can_reproduce_together a other
                             then reproduce (HerbivoreAt i) a other else a) others a) = position a"
  by (induction others arbitrary: a) (simp_all add: reproduce_def)

lemma after_move_position:
  assumes "i < length (herbivores e)"
  shows "position (herbivores (fst (handle_reproduction e (HerbivoreAt i) new)) ! i)
           = position (herbivores e ! i)"
    and "position (herbivores (defecate e (HerbivoreAt i)) ! i) = position (herbivores e ! i)"
    and "position (herbivores (urinate e (HerbivoreAt i)) ! i) = position (herbivores e ! i)"
proof -
  show "position (herbivores (fst (handle_reproduction e (HerbivoreAt i) new)) ! i)
           = position (herbivores e ! i)"
    using assms by (simp add: handle_reproduction_def reproduction_fold_position)
  show "position (herbivores (defecate e (HerbivoreAt i)) ! i) = position (herbivores e ! i)"
    using assms by (simp add: defecate_def Let_def position_def)
  show "position (herbivores (urinate e (HerbivoreAt i)) ! i) = position (herbivores e ! i)"
    using assms by (simp add: urinate_def Let_def position_def)
qed

lemma herbivore_ops_length [simp]:
  "length (herbivores (handle_feeding e (HerbivoreAt i))) = length (herbivores e)"
  "length (herbivores (handle_drinking e (HerbivoreAt i))) = length (herbivores e)"
  "length (herbivores (fst (handle_reproduction e (HerbivoreAt i) new))) = length (herbivores e)"
  "length (herbivores (defecate e (HerbivoreAt i))) = length (herbivores e)"
  "length (herbivores (urinate e (HerbivoreAt i))) = length (herbivores e)"
  by (simp_all add: handle_feeding_def feed_herbivore_def handle_drinking_def
      handle_reproduction_def defecate_def urinate_def Let_def)

text \<open>The iteration of the herbivore pass for a herbivore that is alive after its vital
  statistics: it stays in the roster, and it has moved as \<open>moved\<close> says.\<close>

lemma herbivore_step_live:
  assumes i: "i < length (herbivores e)"
    and live: "\<not> is_dead (herbivores e ! i)"
    and live': "\<not> is_dead (handle_vital_stats (herbivores e ! i))"
  shows "fst (snd (herbivore_step i (e, rem, new))) = rem @ [HerbivoreAt i]"
    and "length (herbivores (fst (herbivore_step i (e, rem, new)))) = length (herbivores e)"
    and "position (herbivores (fst (herbivore_step i (e, rem, new))) ! i)
           = position (herbivores e ! i)
         \<or> position (herbivores (fst (herbivore_step i (e, rem, new))) ! i)
           \<in> set (free_moves e (herbivores e ! i))"
    and "position (herbivores (fst (herbivore_step i (e, rem, new))) ! i)
           = position (herbivores (handle_movement (handle_drinking (handle_feeding
               (set_animal e (HerbivoreAt i) (handle_vital_stats (herbivores e ! i)))
               (HerbivoreAt i)) (HerbivoreAt i)) (HerbivoreAt i)) ! i)"
    and "free_moves e (herbivores e ! i) \<noteq> [] \<Longrightarrow> 0 < energy (herbivores e ! i) \<Longrightarrow>
         position (herbivores (fst (herbivore_step i (e, rem, new))) ! i)
           \<in> set (free_moves e (herbivores e ! i))"
proof -
  let ?ref = "HerbivoreAt i"
  let ?a = "herbivores e ! i"
  let ?e2 = "set_animal e ?ref (handle_vital_stats ?a)"
  let ?e3 = "handle_feeding ?e2 ?ref"
  let ?e4 = "handle_drinking ?e3 ?ref"
  let ?e5 = "handle_movement ?e4 ?ref"
  let ?e6 = "fst (handle_reproduction ?e5 ?ref new)"
  let ?e7 = "defecate ?e6 ?ref"
  let ?e8 = "urinate ?e7 ?ref"
  have decay: "handle_decay e ?ref rem = (e, rem)"
    using live by (simp add: handle_decay_def)
  have l2: "i < length (herbivores ?e2)" using i by simp
  have l3: "i < length (herbivores ?e3)" using i by simp
  have l4: "i < length (herbivores ?e4)" using i by simp
  have l5: "i < length (herbivores ?e5)" using i by (simp add: handle_movement_alive(2))
  have l6: "i < length (herbivores ?e6)" using l5 by simp
  have l7: "i < length (herbivores ?e7)" using l6 by simp
  have step: "herbivore_step i (e, rem, new) = (?e8, rem @ [?ref], new)"
    using live' i by (simp add: herbivore_step_def Let_def decay)
  show "fst (snd (herbivore_step i (e, rem, new))) = rem @ [HerbivoreAt i]"
    by (simp add: step)
  show "length (herbivores (fst (herbivore_step i (e, rem, new)))) = length (herbivores e)"
    by (simp add: step handle_movement_alive(2))
  have g4: "same_ground e ?e4"
    by (intro same_ground_trans[OF before_move_ground(1)[of e ?ref "handle_vital_stats ?a"]]
        same_ground_trans[OF before_move_ground(2)[of ?e2 i]] before_move_ground(3))
  have "stays ?a (herbivores ?e2 ! i)"
    using live live' i by (simp add: stays_def energy_stays_positive)
  from stays_trans[OF stays_trans[OF this before_move_stays(1)[OF l2]] before_move_stays(2)[OF l3]]
  have s4: "stays ?a (herbivores ?e4 ! i)" .
  have fm: "free_moves ?e4 (herbivores ?e4 ! i) = free_moves e ?a"
    by (rule free_moves_cong[OF g4 s4])
  have live4: "\<not> is_dead (herbivores ?e4 ! i)"
    using s4 live by (simp add: stays_def)
  have energy4: "0 < energy ?a \<Longrightarrow> 0 < energy (herbivores ?e4 ! i)"
    using s4 by (simp add: stays_def)
  have pos4: "position (herbivores ?e4 ! i) = position ?a"
    using s4 by (simp add: stays_def position_def)
  have m: "moved ?e4 (herbivores ?e4 ! i) (herbivores ?e5 ! i)"
    by (rule handle_movement_moved[OF l4])
  have p8: "position (herbivores ?e8 ! i) = position (herbivores ?e5 ! i)"
    using after_move_position(1)[OF l5, of new] after_move_position(2)[OF l6]
      after_move_position(3)[OF l7] by simp
  have "position (herbivores ?e5 ! i) = position ?a
        \<or> position (herbivores ?e5 ! i) \<in> set (free_moves e ?a)"
    using m unfolding moved_def fm pos4 by (simp split: if_splits)
  then show "position (herbivores (fst (herbivore_step i (e, rem, new))) ! i)
           = position (herbivores e ! i)
         \<or> position (herbivores (fst (herbivore_step i (e, rem, new))) ! i)
           \<in> set (free_moves e (herbivores e ! i))"
    unfolding step fst_conv p8 .
  show "position (herbivores (fst (herbivore_step i (e, rem, new))) ! i)
           = position (herbivores ?e5 ! i)"
    unfolding step fst_conv p8 ..
  assume "free_moves e ?a \<noteq> []" "0 < energy ?a"
  then have "position (herbivores ?e5 ! i) \<in> set (free_moves e ?a)"
    using m energy4 live4 unfolding moved_def fm by simp
  then show "position (herbivores (fst (herbivore_step i (e, rem, new))) ! i)
           \<in> set (free_moves e (herbivores e ! i))"
    unfolding step fst_conv p8 .
qed

section \<open>A single herbivore on open land\<close>

lemma random_randint_range:
  "a \<le> b \<Longrightarrow> a \<le> fst (random_randint a b g) \<and> fst (random_randint a b g) \<le> b"
proof -
  assume "a \<le> b"
  then have "0 < nat (b - a + 1)" by simp
  from randbelow_less[OF this, of g] have "int (fst (randbelow (nat (b - a + 1)) g)) < b - a + 1"
    by linarith
  then show ?thesis by (simp add: random_randint_def)
qed

lemma new_herbivore_fresh:
  fixes ident r c spd sx g
  defines "h \<equiv> fst (new_herbivore ident r c spd sx g)"
  shows "position h = (r, c)" "\<not> is_dead h" "\<not> is_dead (handle_vital_stats h)"
    "energy h = 100" "species h = Herbivore" "animal_id h = ident"
proof -
  let ?g1 = "snd (rng_next g)"
  let ?coin = "fst (random_choice [True, False] g)"
  let ?g2 = "if ?coin then snd (rng_next ?g1) else ?g1"
  have age: "age h = (if ?coin then fst (random_randint 20 40 ?g1) else 0)"
    and oldest: "max_age h = fst (random_randint 50 100 ?g2)"
    and rest: "hunger h = 0" "thirst h = 0" "energy h = 100" "body_temperature h = 37"
      "\<not> is_dead h" "row h = r" "col h = c" "species h = Herbivore" "animal_id h = ident"
    by (simp_all add: h_def new_herbivore_def new_animal_def Let_def)
  have "age h \<le> 40"
    using random_randint_range[of 20 40 ?g1] by (simp add: age)
  moreover have "50 \<le> max_age h"
    using random_randint_range[of 50 100 ?g2] by (simp add: oldest)
  ultimately show "\<not> is_dead (handle_vital_stats h)"
    using rest
    by (simp add: handle_vital_stats_def regenerate_energy_def check_death_conditions_def
        die_def increase_thirst_def increase_hunger_def age_animal_def Let_def)
  show "position h = (r, c)" "\<not> is_dead h" "energy h = 100" "species h = Herbivore"
    "animal_id h = ident"
    using rest by (simp_all add: position_def)
qed

lemma lonely_environment:
  "herbivores (update_environment (lonely_world h tiles g)) = [h]"
  "predators (update_environment (lonely_world h tiles g)) = []"
  "same_ground (lonely_world h tiles g) (update_environment (lonely_world h tiles g))"
proof -
  let ?w = "lonely_world h tiles g"
  have "update_environment ?w =
      ?w\<lparr>ambient_temperature := 20, random_state := snd (rng_next g), season_cycle := 1\<rparr>"
    by (simp add: update_environment_def update_season_cycle_def handle_extreme_heat_def
        precipitate_def adjust_temperature_def lonely_world_def blank_ecosystem_def
        random_randint_def Let_def)
  then show "herbivores (update_environment ?w) = [h]" "predators (update_environment ?w) = []"
    "same_ground ?w (update_environment ?w)"
    by (simp_all add: same_ground_def passable_def fun_eq_iff lonely_world_def
        blank_ecosystem_def)
qed

lemma same_core_position: "same_core a b \<Longrightarrow> position b = position a"
proof -
  assume "same_core a b"
  then have c: "core b = core a" by (simp add: same_core_def)
  have "position b = position (core b)" "position a = position (core a)"
    by (simp_all add: position_def core_def)
  then show ?thesis by (simp add: c)
qed

lemma lonely_tick:
  fixes h tiles g
  assumes live: "\<not> is_dead h" and live': "\<not> is_dead (handle_vital_stats h)"
  defines "w \<equiv> lonely_world h tiles g"
  shows "length (herbivores (update w)) = 1"
    and "position (hd (herbivores (update w))) = position h
         \<or> position (hd (herbivores (update w))) \<in> set (free_moves w h)"
    and "map position (herbivores (update w))
           = [position (herbivores (handle_movement (handle_drinking (handle_feeding
               (set_animal (update_environment w) (HerbivoreAt 0) (handle_vital_stats h))
               (HerbivoreAt 0)) (HerbivoreAt 0)) (HerbivoreAt 0)) ! 0)]"
    and "free_moves w h \<noteq> [] \<Longrightarrow> 0 < energy h \<Longrightarrow>
         position (hd (herbivores (update w))) \<in> set (free_moves w h)"
proof -
  let ?e1 = "update_environment w"
  let ?s = "herbivore_step 0 (?e1, [], [])"
  have h1: "herbivores ?e1 = [h]" and p1: "predators ?e1 = []"
    and g1: "same_ground w ?e1"
    unfolding w_def by (rule lonely_environment)+
  have i: "0 < length (herbivores ?e1)" by (simp add: h1)
  have a: "herbivores ?e1 ! 0 = h" by (simp add: h1)
  note st = herbivore_step_live[OF i, unfolded a, OF live live', of "[]" "[]"]
  have new: "snd (snd ?s) = []"
    using herbivore_step_effect(5)[of 0 "(?e1, [], [])"] i by simp
  have fm: "free_moves ?e1 h = free_moves w h"
    by (rule free_moves_cong[OF g1]) simp
  have uh: "herbivores (update_herbivores ?e1) = [herbivores (fst ?s) ! 0]"
    using st(1) new by (simp add: update_herbivores_def Let_def h1)
  have "predators (after_herbivores w) = []"
    by (simp add: after_herbivores_def update_herbivores_predators p1)
  then have "herbivores (after_predators w) = herbivores (after_herbivores w)"
    by (simp add: after_predators_def update_predators_def Let_def)
  then have ap: "herbivores (after_predators w) = [herbivores (fst ?s) ! 0]"
    by (simp add: after_herbivores_def uh)
  have l2: "list_all2 same_core [herbivores (fst ?s) ! 0] (herbivores (update w))"
    using update_rosters(1)[of w] by (simp add: ap)
  then have len: "length (herbivores (update w)) = 1"
    by (auto dest: list_all2_lengthD)
  then obtain y where y: "herbivores (update w) = [y]"
    by (cases "herbivores (update w)") auto
  with l2 have "same_core (herbivores (fst ?s) ! 0) y" by simp
  then have pos: "position (hd (herbivores (update w))) = position (herbivores (fst ?s) ! 0)"
    using y by (simp add: same_core_position)
  show "length (herbivores (update w)) = 1" by (rule len)
  show "position (hd (herbivores (update w))) = position h
         \<or> position (hd (herbivores (update w))) \<in> set (free_moves w h)"
    using st(3) unfolding pos fm .
  show "map position (herbivores (update w))
           = [position (herbivores (handle_movement (handle_drinking (handle_feeding
               (set_animal (update_environment w) (HerbivoreAt 0) (handle_vital_stats h))
               (HerbivoreAt 0)) (HerbivoreAt 0)) (HerbivoreAt 0)) ! 0)]"
    using pos st(4) y by simp
  assume "free_moves w h \<noteq> []" "0 < energy h"
  then show "position (hd (herbivores (update w))) \<in> set (free_moves w h)"
    using st(5) unfolding pos fm by simp
qed

lemma lonely_candidates:
  "row h = 0 \<Longrightarrow> col h = 0 \<Longrightarrow>
   candidate_moves (lonely_world h tiles g) (row h) (col h) = [(0, 0), (0, 1), (1, 0), (1, 1)]"
  by (simp add: candidate_moves_def offsets3_def in_bounds_def passable_def lonely_world_def
      blank_ecosystem_def new_terrain_def)

end
